theory Spec2Isabelle
  imports Complex_Main
begin

section \<open>Floating-point arithmetic\<close>

text \<open>
  The locals of \<open>TopicMonitor::run\<close> are declared \<open>float\<close> and the ROS library computes
  \<open>toSec()\<close> in \<open>double\<close>, so every arithmetic result of the source is rounded: to IEEE
  binary32 (24 significant bits, least normal exponent \<open>-126\<close>) or to binary64 (53 bits,
  \<open>-1022\<close>), to the nearest representable number, ties to the even significand. A float is
  modelled by the real number it denotes. Not modelled: infinities (a result of magnitude
  \<open>2^128\<close>, for \<open>double\<close> \<open>2^1024\<close>, or more, and a division by zero) and NaN; evaluation of
  \<open>float\<close> expressions in a wider format; contraction of a product and a sum into one
  fused operation.
\<close>

text \<open>The nearest integer, a tie going to the even one.\<close>

definition round_even :: "real \<Rightarrow> int" where
  "round_even x =
     (let f = \<lfloor>x\<rfloor>; d = x - of_int f
      in if d < 1 / 2 then f else if 1 / 2 < d then f + 1 else if even f then f else f + 1)"

text \<open>The exponent \<open>k\<close> of the binade of a positive number: \<open>2^k \<le> x < 2^(k+1)\<close>.\<close>

function ilog2 :: "real \<Rightarrow> int" where
  "ilog2 x =
     (if x \<le> 0 then 0
      else if 2 \<le> x then ilog2 (x / 2) + 1
      else if x < 1 then ilog2 (2 * x) - 1
      else 0)"
  by pat_completeness auto
termination
proof (relation "measure (\<lambda>x. nat \<bar>\<lfloor>log 2 x\<rfloor>\<bar>)")
  show "wf (measure (\<lambda>x. nat \<bar>\<lfloor>log 2 x\<rfloor>\<bar>))" by simp
next
  fix x :: real
  assume a: "\<not> x \<le> 0" "2 \<le> x"
  have "log 2 (x / 2) = log 2 x - 1"
    using a by (simp add: log_divide)
  moreover have "1 \<le> log 2 x"
    using a by (simp add: le_log_iff)
  ultimately have "\<lfloor>log 2 (x / 2)\<rfloor> = \<lfloor>log 2 x\<rfloor> - 1" "1 \<le> \<lfloor>log 2 x\<rfloor>"
    by (simp_all add: le_floor_iff)
  then have "nat \<bar>\<lfloor>log 2 (x / 2)\<rfloor>\<bar> < nat \<bar>\<lfloor>log 2 x\<rfloor>\<bar>"
    by linarith
  then show "(x / 2, x) \<in> measure (\<lambda>x. nat \<bar>\<lfloor>log 2 x\<rfloor>\<bar>)"
    by (simp only: in_measure)
next
  fix x :: real
  assume a: "\<not> x \<le> 0" "\<not> 2 \<le> x" "x < 1"
  have "log 2 (2 * x) = log 2 x + 1"
    using a by (simp add: log_mult)
  moreover have "log 2 x < 0"
    using a by simp
  ultimately have "\<lfloor>log 2 (2 * x)\<rfloor> = \<lfloor>log 2 x\<rfloor> + 1" "\<lfloor>log 2 x\<rfloor> < 0"
    by (simp_all add: floor_less_iff)
  then have "nat \<bar>\<lfloor>log 2 (2 * x)\<rfloor>\<bar> < nat \<bar>\<lfloor>log 2 x\<rfloor>\<bar>"
    by linarith
  then show "(2 * x, x) \<in> measure (\<lambda>x. nat \<bar>\<lfloor>log 2 x\<rfloor>\<bar>)"
    by (simp only: in_measure)
qed

declare ilog2.simps [simp del]

text \<open>
  Rounding to precision \<open>p\<close> with least normal exponent \<open>emin\<close>: the spacing of the
  representable numbers around \<open>x\<close> is \<open>2^e\<close>, constant below \<open>2^emin\<close> (the subnormal
  numbers), and \<open>x\<close> goes to the nearest multiple of it.
\<close>

definition fround :: "nat \<Rightarrow> int \<Rightarrow> real \<Rightarrow> real" where
  "fround p emin x =
     (if x = 0 then 0
      else (let e = max (ilog2 \<bar>x\<bar>) emin - int p + 1
            in of_int (round_even (x / 2 powi e)) * 2 powi e))"

definition to_float :: "real \<Rightarrow> real" where
  "to_float x = fround 24 (- 126) x"

definition to_double :: "real \<Rightarrow> real" where
  "to_double x = fround 53 (- 1022) x"

datatype fp_type = Single | Double

fun store :: "fp_type \<Rightarrow> real \<Rightarrow> real" where
  "store Single x = to_float x"
| "store Double x = to_double x"

section \<open>The topic monitor (class TopicMonitor of zeus\_watchdog.cpp)\<close>

text \<open>
  A time stamp is a value of the library type \<open>ros::Time\<close>, a count of seconds and of
  nanoseconds; it is modelled by the number of nanoseconds since the epoch. The difference
  of two stamps is a \<open>ros::Duration\<close>, normalised by the library to a signed count of
  seconds and a count of nanoseconds between 0 and 999999999, and \<open>toSec()\<close> returns
  \<open>(double) sec + 1e-9 * (double) nsec\<close>. The library refuses a duration of which the
  seconds do not fit 32 bits; stamps that far apart are outside the model.
\<close>

type_synonym stamp = int

definition toSec :: "int \<Rightarrow> real" where
  "toSec d =
     to_double (of_int (d div 1000000000) +
                to_double (to_double (1 / 1000000000) * of_int (d mod 1000000000)))"

text \<open>
  The header \<open>zeus_watchdog/zeus_watchdog.h\<close>, which declares the members of both classes,
  is not among the sources. The source shows what is assigned to the members, not their
  types, so the floating-point types of \<open>min_freq_\<close> and of \<open>min_time_\<close> are parameters.
\<close>

record member_types =
  min_freq_type :: fp_type
  min_time_type :: fp_type

text \<open>
  A member \<open>x_\<close> of the class is the field \<open>tm_x\<close> of the record (an Isabelle name
  cannot end in an underscore, and both classes of the source have a \<open>status_\<close> and a
  \<open>rate_\<close>).
\<close>

record topic_monitor =
  tm_name :: string
  tm_topic_name :: string
  tm_min_freq :: real
  tm_use_average :: bool
  tm_rate :: real
  tm_min_time :: real
  tm_stamps :: "stamp list"
  tm_status :: bool

text \<open>
  The constructor (lines 111--122). Its parameters \<open>min_freq\<close> and \<open>rate\<close> are \<open>float\<close>, which
  a member of either type holds unchanged. The quotient \<open>1 / min_freq_\<close> of line 121 is
  computed in the type of \<open>min_freq_\<close> and converted to the type of \<open>min_time_\<close>. The
  constructor initialises neither \<open>status_\<close> nor, explicitly, \<open>stamps_\<close>: the vector is
  default-constructed empty, and \<open>s0\<close> stands for whatever the member \<open>status_\<close> holds
  before the first evaluation writes it.
\<close>

definition TopicMonitor ::
  "member_types \<Rightarrow> string \<Rightarrow> string \<Rightarrow> real \<Rightarrow> bool \<Rightarrow> real \<Rightarrow> bool \<Rightarrow> topic_monitor" where
  "TopicMonitor h name topic_name min_freq use_average rate s0 =
     \<lparr> tm_name = name, tm_topic_name = topic_name, tm_min_freq = min_freq,
       tm_use_average = use_average, tm_rate = rate,
       tm_min_time = store (min_time_type h) (store (min_freq_type h) (1 / min_freq)),
       tm_stamps = [], tm_status = s0 \<rparr>"

text \<open>\<open>topicCB\<close> (lines 137--142): append the receipt time, under the lock.\<close>

definition topicCB :: "stamp \<Rightarrow> topic_monitor \<Rightarrow> topic_monitor" where
  "topicCB receipt_time m = m\<lparr>tm_stamps := tm_stamps m @ [receipt_time]\<rparr>"

definition getStatus :: "topic_monitor \<Rightarrow> bool" where
  "getStatus m = tm_status m"

definition getName :: "topic_monitor \<Rightarrow> string" where
  "getName m = tm_name m"

text \<open>The frequency of the evaluation loop (lines 154--159).\<close>

definition run_freq :: "topic_monitor \<Rightarrow> real" where
  "run_freq m = (if tm_min_freq m < tm_rate m then tm_min_freq m else tm_rate m)"

text \<open>
  Line 170: the \<open>double\<close> that \<open>toSec()\<close> returns for the difference of two stamps,
  narrowed to the \<open>float\<close> local \<open>elapsed_time\<close>.
\<close>

definition elapsed :: "stamp \<Rightarrow> stamp \<Rightarrow> real" where
  "elapsed earlier later = to_float (toSec (later - earlier))"

text \<open>
  The \<open>for\<close> loop of lines 168--178, from index \<open>i\<close> with the current values of
  \<open>status_\<close> and of the \<open>float\<close> \<open>elapsed_time_sum\<close>. The \<open>break\<close> leaves the loop with
  the sum as it is. The bound \<open>stamps_.size() - 1\<close> is unsigned in the source; the loop is
  only reached with at least two stamps, where it does not wrap.
\<close>

function scan_stamps :: "topic_monitor \<Rightarrow> nat \<Rightarrow> bool \<Rightarrow> real \<Rightarrow> bool \<times> real" where
  "scan_stamps m i st elapsed_time_sum =
     (if i < length (tm_stamps m) - 1 then
        (let elapsed_time = elapsed (tm_stamps m ! i) (tm_stamps m ! (i + 1)) in
         if \<not> tm_use_average m \<and> elapsed_time > tm_min_time m
         then (False, elapsed_time_sum)
         else scan_stamps m (i + 1) st (to_float (elapsed_time_sum + elapsed_time)))
      else (st, elapsed_time_sum))"
  by pat_completeness auto
termination
  by (relation "measure (\<lambda>(m, i, st, s). length (tm_stamps m) - 1 - i)") auto

declare scan_stamps.simps [simp del]

text \<open>
  Lines 164--192: the verdict of one evaluation. In line 181 the size of the vector is
  converted to \<open>float\<close> and the quotient is a \<open>float\<close>.
\<close>

definition run_check :: "topic_monitor \<Rightarrow> topic_monitor" where
  "run_check m =
     (if length (tm_stamps m) \<ge> 2 then
        (case scan_stamps m 0 True 0 of (st, elapsed_time_sum) \<Rightarrow>
           if tm_use_average m then
             (let average_time_elapsed =
                    to_float (elapsed_time_sum / to_float (real (length (tm_stamps m)))) in
              if average_time_elapsed > tm_min_time m then m\<lparr>tm_status := False\<rparr>
              else m\<lparr>tm_status := st\<rparr>)
           else m\<lparr>tm_status := st\<rparr>)
      else m\<lparr>tm_status := False\<rparr>)"

text \<open>Lines 193--198: keep the last stamp only.\<close>

definition run_retain :: "topic_monitor \<Rightarrow> topic_monitor" where
  "run_retain m =
     (if length (tm_stamps m) \<ge> 1 then
        (let last_stamp = tm_stamps m ! (length (tm_stamps m) - 1) in
         m\<lparr>tm_stamps := [] @ [last_stamp]\<rparr>)
      else m)"

text \<open>
  One pass through the body of the \<open>while (ros::ok())\<close> loop of \<open>TopicMonitor::run\<close>
  (lines 162--200), which holds the lock from the test of the size to the truncation.
\<close>

definition TopicMonitor_run :: "topic_monitor \<Rightarrow> topic_monitor" where
  "TopicMonitor_run m = run_retain (run_check m)"

text \<open>
  The monitor's two threads only touch \<open>stamps_\<close> and \<open>status_\<close> inside the lock, so a
  run of the monitor is a sequence of arrivals and evaluations.
\<close>

datatype monitor_event = Arrival stamp | Evaluation

fun monitor_step :: "monitor_event \<Rightarrow> topic_monitor \<Rightarrow> topic_monitor" where
  "monitor_step (Arrival t) m = topicCB t m"
| "monitor_step Evaluation m = TopicMonitor_run m"

definition monitor_exec :: "monitor_event list \<Rightarrow> topic_monitor \<Rightarrow> topic_monitor" where
  "monitor_exec es m = fold monitor_step es m"

text \<open>
  A topic published at a fixed period: \<open>n\<close> arrivals with the stamps \<open>0\<close>, \<open>period\<close>,
  \<open>2 * period\<close>, ... (in nanoseconds) and no evaluation in between.
\<close>

definition regular_arrivals :: "int \<Rightarrow> nat \<Rightarrow> monitor_event list" where
  "regular_arrivals period n = map (\<lambda>i. Arrival (int i * period)) [0 ..< n]"

text \<open>
  The gaps between adjacent stamps as the evaluation computes them, their sum as it
  accumulates them (from zero, in the order of the log, each partial sum a \<open>float\<close>), and
  the gap between two stamps in seconds as a number of the specification, not rounded.
\<close>

definition gaps :: "stamp list \<Rightarrow> real list" where
  "gaps ts = map (\<lambda>i. elapsed (ts ! i) (ts ! (i + 1))) [0 ..< length ts - 1]"

definition float_sum :: "real list \<Rightarrow> real" where
  "float_sum gs = foldl (\<lambda>s g. to_float (s + g)) 0 gs"

definition gap_seconds :: "stamp \<Rightarrow> stamp \<Rightarrow> real" where
  "gap_seconds earlier later = of_int (later - earlier) / 1000000000"

text \<open>
  What the constructor establishes of a monitor for a non-zero minimum frequency, and
  no member function changes: \<open>min_time_\<close> is the rounded quotient.
\<close>

definition configured :: "member_types \<Rightarrow> topic_monitor \<Rightarrow> bool" where
  "configured h m =
     (tm_min_freq m \<noteq> 0 \<and>
      tm_min_time m = store (min_time_type h) (store (min_freq_type h) (1 / tm_min_freq m)))"

text \<open>
  The verdict of strict mode as the specification words it: every gap is examined, and
  one gap above the minimum interval makes the verdict unhealthy.
\<close>

definition examine_all_gaps :: "real \<Rightarrow> stamp list \<Rightarrow> bool" where
  "examine_all_gaps min_interval ts =
     fold (\<lambda>g healthy. if g > min_interval then False else healthy) (gaps ts) True"

section \<open>The watchdog (class ZeusWatchdog of zeus\_watchdog.cpp)\<close>

text \<open>
  The messages are those of the ROS packages the node is built against:
  \<open>geometry_msgs::Twist\<close> is a linear and an angular vector of three numbers each, and its
  default constructor sets all six to zero; a \<open>TopicStatus\<close> is a name and a verdict, a
  \<open>TopicArray\<close> a time stamp and a sequence of \<open>TopicStatus\<close>.
\<close>

datatype vector3 = Vector3 real real real

datatype twist = Twist vector3 vector3

definition Twist_default :: twist where
  "Twist_default = Twist (Vector3 0 0 0) (Vector3 0 0 0)"

record topic_status =
  ts_name :: string
  ts_status :: bool

record topic_array =
  header_stamp :: stamp
  status_array :: "topic_status list"

datatype log_entry = FATAL string | INFO string

text \<open>
  The members of the class are the fields \<open>zw_x\<close> for \<open>x_\<close>. What the node publishes on
  its three topics and what it logs are sequences that grow at the end.
\<close>

record zeus_watchdog =
  zw_nb_of_topics :: int
  zw_rate :: real
  zw_topic_list :: "topic_monitor list"
  zw_status :: bool
  cmd_vel_out :: "twist list"
  status_out :: "bool list"
  info_out :: "topic_array list"
  rosout :: "log_entry list"

text \<open>\<open>cmdVelCB\<close> (lines 99--109).\<close>

definition cmdVelCB :: "twist \<Rightarrow> zeus_watchdog \<Rightarrow> zeus_watchdog" where
  "cmdVelCB msg w =
     (if zw_status w = True then w\<lparr>cmd_vel_out := cmd_vel_out w @ [msg]\<rparr>
      else w\<lparr>cmd_vel_out := cmd_vel_out w @ [Twist_default]\<rparr>)"

text \<open>
  The range-based \<open>for\<close> of lines 82--90 over the monitors still to visit, with the
  current \<open>status_\<close> and the \<open>status\<close> array of the message being filled.
\<close>

fun collect_status ::
  "topic_monitor list \<Rightarrow> bool \<Rightarrow> topic_status list \<Rightarrow> bool \<times> topic_status list" where
  "collect_status [] st arr = (st, arr)"
| "collect_status (t # ts) st arr =
     (let topic_status_msg = \<lparr> ts_name = getName t, ts_status = getStatus t \<rparr> in
      collect_status ts (if getStatus t = False then False else st) (arr @ [topic_status_msg]))"

text \<open>
  One pass through the body of the \<open>while (ros::ok())\<close> loop of \<open>ZeusWatchdog::run\<close>
  (lines 78--94); \<open>now\<close> is what \<open>ros::Time::now()\<close> returns. No monitor changes its
  verdict while the pass reads them.
\<close>

definition ZeusWatchdog_run :: "stamp \<Rightarrow> zeus_watchdog \<Rightarrow> zeus_watchdog" where
  "ZeusWatchdog_run now w =
     (case collect_status (zw_topic_list w) True [] of (st, arr) \<Rightarrow>
        w\<lparr> zw_status := st,
           status_out := status_out w @ [st],
           info_out := info_out w @ [\<lparr> header_stamp = now, status_array = arr \<rparr>] \<rparr>)"

subsection \<open>Reading the configuration\<close>

text \<open>
  \<open>getParam\<close> is a function of the ROS client library: it returns whether the parameter
  server has a value under the key that can be read at the type of the variable passed,
  and writes the variable only then. The parameter server is therefore modelled by what
  \<open>getParam\<close> finds in it at each of the four types the node reads.
\<close>

record param_server =
  int_param :: "string \<rightharpoonup> int"
  float_param :: "string \<rightharpoonup> real"
  bool_param :: "string \<rightharpoonup> bool"
  string_param :: "string \<rightharpoonup> string"

text \<open>\<open>std::to_string\<close> on an \<open>int\<close>: the decimal digits, with a sign when negative.\<close>

function to_string_nat :: "nat \<Rightarrow> string" where
  "to_string_nat n =
     (if n < 10 then [''0123456789'' ! n]
      else to_string_nat (n div 10) @ [''0123456789'' ! (n mod 10)])"
  by pat_completeness auto
termination
  by (relation "measure (\<lambda>n. n)") auto

declare to_string_nat.simps [simp del]

definition to_string :: "int \<Rightarrow> string" where
  "to_string i = (if i < 0 then CHR ''-'' # to_string_nat (nat (- i)) else to_string_nat (nat i))"

text \<open>
  How a call of \<open>createTopicMonitors\<close> ends. The function is declared to return \<open>bool\<close>
  and its only \<open>return\<close> statements are the three \<open>return false\<close>. After the loop control
  reaches the closing brace (line 60) of a function that is to return a value, which C++
  leaves undefined: of an execution that gets there the language says nothing, neither
  of the value handed back nor of the log or of the monitors, so \<open>Undefined\<close> carries no
  state.
\<close>

datatype outcome = Returned bool zeus_watchdog | Undefined

text \<open>The five \<open>getParam\<close> calls of lines 43--47 for one topic, and the test of line 48.\<close>

definition topic_params_exist :: "param_server \<Rightarrow> string \<Rightarrow> bool" where
  "topic_params_exist ps topic_id =
     (let name_exists = (string_param ps (topic_id @ ''/name'') \<noteq> None);
          topic_exists = (string_param ps (topic_id @ ''/topic_name'') \<noteq> None);
          min_freq_exists = (float_param ps (topic_id @ ''/min_freq'') \<noteq> None);
          use_average_exists = (bool_param ps (topic_id @ ''/use_average'') \<noteq> None);
          monitoring_rate_exists = (float_param ps (topic_id @ ''/monitoring_rate'') \<noteq> None)
      in name_exists \<and> topic_exists \<and> min_freq_exists \<and> use_average_exists
           \<and> monitoring_rate_exists)"

text \<open>
  Line 53, when all five parameters were read: the monitor built from them. The two
  frequencies are read into \<open>float\<close> variables, so \<open>float_param\<close> gives binary32 numbers.
  \<open>s0\<close> is the content of the \<open>status_\<close> of the monitor before the first evaluation.
\<close>

definition make_topic :: "member_types \<Rightarrow> param_server \<Rightarrow> bool \<Rightarrow> string \<Rightarrow> topic_monitor" where
  "make_topic h ps s0 topic_id =
     TopicMonitor h
                  (the (string_param ps (topic_id @ ''/name'')))
                  (the (string_param ps (topic_id @ ''/topic_name'')))
                  (the (float_param ps (topic_id @ ''/min_freq'')))
                  (the (bool_param ps (topic_id @ ''/use_average'')))
                  (the (float_param ps (topic_id @ ''/monitoring_rate'')))
                  s0"

text \<open>
  The loop of lines 37--59 from index \<open>i\<close>. A monitor is started (its subscription made
  and its thread launched, lines 208--212) before it is appended to \<open>topic_list_\<close>, so the
  monitors of the list are the running ones. \<open>s0 i\<close> is the initial content of the
  \<open>status_\<close> of the monitor built at index \<open>i\<close>.
\<close>

function topics_loop ::
  "member_types \<Rightarrow> param_server \<Rightarrow> (int \<Rightarrow> bool) \<Rightarrow> int \<Rightarrow> zeus_watchdog \<Rightarrow> outcome" where
  "topics_loop h ps s0 i w =
     (if i < zw_nb_of_topics w then
        (let topic_id = ''topic_'' @ to_string (i + 1) in
         if \<not> topic_params_exist ps topic_id
         then Returned False
                (w\<lparr>rosout := rosout w @
                     [FATAL (''One or more parameter for '' @ topic_id @ '' is missing'')]\<rparr>)
         else topics_loop h ps s0 (i + 1)
                (w\<lparr>zw_topic_list := zw_topic_list w @ [make_topic h ps (s0 i) topic_id]\<rparr>))
      else Undefined)"
  by pat_completeness auto
termination
  by (relation "measure (\<lambda>(h, ps, s0, i, w). nat (zw_nb_of_topics w - i))") auto

declare topics_loop.simps [simp del]

text \<open>\<open>createTopicMonitors\<close> (lines 18--60).\<close>

definition createTopicMonitors ::
  "member_types \<Rightarrow> param_server \<Rightarrow> (int \<Rightarrow> bool) \<Rightarrow> zeus_watchdog \<Rightarrow> outcome" where
  "createTopicMonitors h ps s0 w =
     (case int_param ps ''nb_of_topics'' of
        None \<Rightarrow>
          Returned False (w\<lparr>rosout := rosout w @ [FATAL ''Missing nb_of_topics parameter'']\<rparr>)
      | Some n \<Rightarrow>
          (let w1 = w\<lparr>zw_nb_of_topics := n\<rparr> in
           case float_param ps ''rate'' of
             None \<Rightarrow>
               Returned False (w1\<lparr>rosout := rosout w1 @ [FATAL ''Missing rate parameter'']\<rparr>)
           | Some r \<Rightarrow>
               (let w2 = w1\<lparr>zw_rate := r,
                            rosout := rosout w1 @
                              [INFO (''Monitoring '' @ to_string n @ '' topics'')]\<rparr>
                in topics_loop h ps s0 0 w2)))"

text \<open>
  The constructor (lines 4--13): \<open>w0\<close> is the object before it, of which \<open>nb_of_topics_\<close>,
  \<open>rate_\<close> and \<open>status_\<close> keep whatever they hold; nothing has been published. The value
  of \<open>createTopicMonitors()\<close> is discarded (line 12). The result is \<open>None\<close> when the
  behaviour of the call is undefined.
\<close>

definition ZeusWatchdog ::
  "member_types \<Rightarrow> param_server \<Rightarrow> (int \<Rightarrow> bool) \<Rightarrow> zeus_watchdog \<Rightarrow> zeus_watchdog option" where
  "ZeusWatchdog h ps s0 w0 =
     (case createTopicMonitors h ps s0
             (w0\<lparr>zw_topic_list := [], cmd_vel_out := [], status_out := [],
                 info_out := [], rosout := []\<rparr>) of
        Returned b w \<Rightarrow> Some w
      | Undefined \<Rightarrow> None)"

text \<open>
  \<open>main\<close> (lines 231--242) builds the watchdog and calls its \<open>run\<close> with no test in
  between: this is \<open>main\<close> up to the end of the first pass of \<open>run\<close>.
\<close>

definition main_first_pass ::
  "member_types \<Rightarrow> param_server \<Rightarrow> (int \<Rightarrow> bool) \<Rightarrow> zeus_watchdog \<Rightarrow> stamp \<Rightarrow>
     zeus_watchdog option" where
  "main_first_pass h ps s0 w0 now = map_option (ZeusWatchdog_run now) (ZeusWatchdog h ps s0 w0)"

text \<open>
  Concrete inputs: the two declarations of the members in which both have one type, a
  parameter server on which nothing is set, one that configures zero topics, one that
  announces a topic and has none of its parameters and one that configures a single topic, the content of a watchdog object before its constructor has
  run, and monitors whose \<open>status_\<close> starts as \<open>false\<close>.
\<close>

definition float_members :: member_types where
  "float_members = \<lparr> min_freq_type = Single, min_time_type = Single \<rparr>"

definition double_members :: member_types where
  "double_members = \<lparr> min_freq_type = Double, min_time_type = Double \<rparr>"

definition no_params :: param_server where
  "no_params = \<lparr> int_param = Map.empty, float_param = Map.empty,
                 bool_param = Map.empty, string_param = Map.empty \<rparr>"

definition zero_topics_params :: param_server where
  "zero_topics_params = \<lparr> int_param = [''nb_of_topics'' \<mapsto> 0], float_param = [''rate'' \<mapsto> 10],
                          bool_param = Map.empty, string_param = Map.empty \<rparr>"

definition blank_watchdog :: zeus_watchdog where
  "blank_watchdog = \<lparr> zw_nb_of_topics = 0, zw_rate = 0, zw_topic_list = [], zw_status = False,
                      cmd_vel_out = [], status_out = [], info_out = [], rosout = [] \<rparr>"

definition unset_status :: "int \<Rightarrow> bool" where
  "unset_status i = False"

definition missing_topic_params :: param_server where
  "missing_topic_params = \<lparr> int_param = [''nb_of_topics'' \<mapsto> 1], float_param = [''rate'' \<mapsto> 10],
                            bool_param = Map.empty, string_param = Map.empty \<rparr>"

definition one_topic_params :: param_server where
  "one_topic_params =
     \<lparr> int_param = [''nb_of_topics'' \<mapsto> 1],
       float_param = [''rate'' \<mapsto> 10, ''topic_1/min_freq'' \<mapsto> 10,
                      ''topic_1/monitoring_rate'' \<mapsto> 10],
       bool_param = [''topic_1/use_average'' \<mapsto> False],
       string_param = [''topic_1/name'' \<mapsto> ''lidar'', ''topic_1/topic_name'' \<mapsto> ''/scan''] \<rparr>"

section \<open>Properties of the rounding\<close>

text \<open>
  Rounding is monotone, leaves a representable number as it is, and moves a number of
  normal magnitude by at most the fraction \<open>2^-p\<close> of it.
\<close>

lemma ilog2_bounds:
  "0 < x \<Longrightarrow> 2 powi (ilog2 x) \<le> x \<and> x < 2 powi (ilog2 x + 1)"
proof (induction x rule: ilog2.induct)
  case (1 x)
  show ?case
  proof (cases "2 \<le> x")
    case True
    have e: "ilog2 x = ilog2 (x / 2) + 1"
      using True "1.prems" by (simp add: ilog2.simps [of x])
    have "2 powi (ilog2 (x / 2)) \<le> x / 2 \<and> x / 2 < 2 powi (ilog2 (x / 2) + 1)"
      using "1.IH"(1) True "1.prems" by simp
    then show ?thesis
      by (simp add: e power_int_add field_simps)
  next
    case False
    show ?thesis
    proof (cases "x < 1")
      case True
      have e: "ilog2 x = ilog2 (2 * x) - 1"
        using True False "1.prems" by (simp add: ilog2.simps [of x])
      have "2 powi (ilog2 (2 * x)) \<le> 2 * x \<and> 2 * x < 2 powi (ilog2 (2 * x) + 1)"
        using "1.IH"(2) True False "1.prems" by simp
      then show ?thesis
        by (simp add: e power_int_add power_int_diff field_simps)
    next
      case f: False
      have "ilog2 x = 0"
        using f False "1.prems" by (simp add: ilog2.simps [of x])
      then show ?thesis using f False by simp
    qed
  qed
qed

lemma pow2_less_iff: "((2::real) powi a < 2 powi b) = (a < b)"
proof
  assume l: "(2::real) powi a < 2 powi b"
  show "a < b"
  proof (rule ccontr)
    assume "\<not> a < b"
    then have "b \<le> a" by simp
    then have "(2::real) powi b \<le> 2 powi a" by (intro power_int_increasing) simp_all
    then show False using l by simp
  qed
next
  assume "a < b"
  then show "(2::real) powi a < 2 powi b" by (intro power_int_strict_increasing) simp_all
qed

lemma pow2_le_iff: "((2::real) powi a \<le> 2 powi b) = (a \<le> b)"
  using pow2_less_iff [of b a] by (simp add: not_less [symmetric])

lemma binade_unique:
  assumes "2 powi k \<le> (x::real)" "x < 2 powi (k + 1)" "2 powi j \<le> x" "x < 2 powi (j + 1)"
  shows "k = j"
proof -
  have "(2::real) powi k < 2 powi (j + 1)" using assms by linarith
  then have "k < j + 1" by (simp only: pow2_less_iff)
  moreover have "(2::real) powi j < 2 powi (k + 1)" using assms by linarith
  then have "j < k + 1" by (simp only: pow2_less_iff)
  ultimately show ?thesis by simp
qed

lemma round_even_of_int: "round_even (of_int n) = n"
  by (simp add: round_even_def)

lemma round_even_eqI:
  assumes "\<bar>x - of_int n\<bar> < 1 / 2"
  shows "round_even x = n"
proof (cases "of_int n \<le> x")
  case True
  then have "of_int n \<le> x" "x < of_int n + 1" using assms by (simp_all add: abs_less_iff)
  then have f: "\<lfloor>x\<rfloor> = n" by (rule floor_unique)
  show ?thesis using assms True by (simp add: round_even_def f Let_def abs_less_iff)
next
  case False
  then have "of_int (n - 1) \<le> x" "x < of_int (n - 1) + 1" using assms by (simp_all add: abs_less_iff)
  then have f: "\<lfloor>x\<rfloor> = n - 1" by (rule floor_unique)
  show ?thesis using assms False by (simp add: round_even_def f Let_def abs_less_iff)
qed

lemma round_even_error: "\<bar>of_int (round_even x) - x\<bar> \<le> 1 / 2"
proof -
  have "of_int \<lfloor>x\<rfloor> \<le> x" "x < of_int \<lfloor>x\<rfloor> + 1" by linarith+
  then show ?thesis
    by (auto simp: round_even_def Let_def abs_le_iff)
qed

lemma round_even_range: "\<lfloor>x\<rfloor> \<le> round_even x \<and> round_even x \<le> \<lfloor>x\<rfloor> + 1"
  by (simp add: round_even_def Let_def)

lemma round_even_mono:
  assumes "x \<le> y"
  shows "round_even x \<le> round_even y"
proof (cases "\<lfloor>x\<rfloor> = \<lfloor>y\<rfloor>")
  case True
  have "x - of_int \<lfloor>x\<rfloor> \<le> y - of_int \<lfloor>y\<rfloor>" using assms True by simp
  then show ?thesis
    using True by (auto simp: round_even_def Let_def)
next
  case False
  have "\<lfloor>x\<rfloor> \<le> \<lfloor>y\<rfloor>" using assms by (rule floor_mono)
  then have "\<lfloor>x\<rfloor> + 1 \<le> \<lfloor>y\<rfloor>" using False by simp
  then show ?thesis
    using round_even_range [of x] round_even_range [of y] by linarith
qed

lemma round_even_minus: "round_even (- x) = - round_even x"
proof (cases "x = of_int \<lfloor>x\<rfloor>")
  case True
  then obtain n where "x = of_int n" ..
  then have "round_even x = n" "round_even (- x) = - n"
    using round_even_of_int [of n] round_even_of_int [of "- n"] by simp_all
  then show ?thesis by simp
next
  case False
  let ?f = "\<lfloor>x\<rfloor>"
  have lt: "of_int ?f < x" "x < of_int ?f + 1" using False by linarith+
  have c: "of_int (- ?f - 1) = - of_int ?f - (1::real)" by simp
  have "of_int (- ?f - 1) \<le> - x" "- x < of_int (- ?f - 1) + 1"
    unfolding c using lt by linarith+
  then have fm: "\<lfloor>- x\<rfloor> = - ?f - 1" by (rule floor_unique)
  have d: "- x - of_int \<lfloor>- x\<rfloor> = 1 - (x - of_int ?f)"
    by (simp add: fm)
  show ?thesis
  proof (cases "x - of_int ?f < 1 / 2")
    case True
    then show ?thesis using d by (simp add: round_even_def Let_def fm)
  next
    case nl: False
    show ?thesis
    proof (cases "1 / 2 < x - of_int ?f")
      case True
      then show ?thesis using d by (simp add: round_even_def Let_def fm)
    next
      case False
      then have h: "x - of_int ?f = 1 / 2" using nl by simp
      then have "- x - of_int \<lfloor>- x\<rfloor> = 1 / 2" using d by simp
      then show ?thesis using h
        by (simp add: round_even_def Let_def) (simp add: fm)
    qed
  qed
qed

lemma fround_zero: "fround p emin 0 = 0"
  by (simp add: fround_def)

lemma ilog2_eq:
  assumes "2 powi k \<le> x" "x < 2 powi (k + 1)"
  shows "ilog2 x = k"
proof -
  have "(0::real) < 2 powi k" by simp
  then have "0 < x" using assms(1) by linarith
  then show ?thesis
    using ilog2_bounds [of x] binade_unique [of "ilog2 x" x k] assms by simp
qed

lemma fround_eq:
  assumes "2 powi k \<le> \<bar>x\<bar>" "\<bar>x\<bar> < 2 powi (k + 1)"
  shows "fround p emin x =
           of_int (round_even (x / 2 powi (max k emin - int p + 1))) *
             2 powi (max k emin - int p + 1)"
proof -
  have "(0::real) < 2 powi k" by simp
  then have "0 < \<bar>x\<bar>" using assms(1) by linarith
  then have "x \<noteq> 0" by simp
  then show ?thesis
    by (simp add: fround_def ilog2_eq [OF assms] Let_def)
qed

lemma fround_minus: "fround p emin (- x) = - fround p emin x"
  by (simp add: fround_def Let_def round_even_minus)

lemma fround_fix:
  assumes "\<bar>n\<bar> < 2 ^ p" "emin - int p + 1 \<le> e"
  shows "fround p emin (of_int n * 2 powi e) = of_int n * 2 powi e"
proof (cases "n = 0")
  case True
  then show ?thesis by (simp add: fround_zero)
next
  case False
  let ?x = "of_int n * (2::real) powi e"
  have ax: "\<bar>?x\<bar> = of_int \<bar>n\<bar> * 2 powi e"
    by (simp add: abs_mult)
  have pos: "0 < \<bar>?x\<bar>" using False by simp
  define k where "k = ilog2 \<bar>?x\<bar>"
  have kb: "2 powi k \<le> \<bar>?x\<bar>" "\<bar>?x\<bar> < 2 powi (k + 1)"
    using ilog2_bounds [OF pos] by (simp_all add: k_def)
  have "of_int \<bar>n\<bar> < (2::real) ^ p"
    using assms(1) by (metis of_int_less_iff of_int_numeral of_int_power)
  then have "\<bar>?x\<bar> < 2 ^ p * 2 powi e"
    unfolding ax by (simp add: mult_strict_right_mono)
  also have "\<dots> = 2 powi (int p + e)"
    by (simp add: power_int_add)
  finally have "(2::real) powi k < 2 powi (int p + e)"
    using kb(1) by linarith
  then have "k < int p + e" by (simp only: pow2_less_iff)
  define E where "E = max k emin - int p + 1"
  have Ee: "E \<le> e" using \<open>k < int p + e\<close> assms(2) by (simp add: E_def)
  have "?x / 2 powi E = of_int n * 2 powi (e - E)"
    by (simp add: power_int_diff)
  also have "\<dots> = of_int n * 2 ^ nat (e - E)"
    using Ee by (simp add: power_int_nonneg_exp)
  also have "\<dots> = of_int (n * 2 ^ nat (e - E))"
    by simp
  finally have "round_even (?x / 2 powi E) = n * 2 ^ nat (e - E)"
    by (simp only: round_even_of_int)
  then have "fround p emin ?x = of_int (n * 2 ^ nat (e - E)) * 2 powi E"
    using fround_eq [OF kb, of p emin] by (simp add: E_def)
  also have "\<dots> = of_int n * (2 powi (e - E) * 2 powi E)"
    using Ee by (simp add: power_int_nonneg_exp)
  also have "\<dots> = ?x"
    by (simp add: power_int_add [symmetric])
  finally show ?thesis .
qed

lemma fround_binade:
  assumes "1 \<le> p" "2 powi k \<le> x" "x < 2 powi (k + 1)"
  shows "fround p emin x \<le> 2 powi (max k emin + 1)"
    and "emin \<le> k \<Longrightarrow> 2 powi k \<le> fround p emin x"
    and "0 \<le> fround p emin x"
proof -
  have x0: "0 < x"
  proof -
    have "(0::real) < 2 powi k" by simp
    then show ?thesis using assms(2) by linarith
  qed
  define e where "e = max k emin - int p + 1"
  have fr: "fround p emin x = of_int (round_even (x / 2 powi e)) * 2 powi e"
    using fround_eq [of k x p emin] assms(2,3) x0 by (simp add: e_def)
  have pe: "(0::real) < 2 powi e" by simp
  have "x < 2 powi (max k emin + 1)"
  proof -
    have "k + 1 \<le> max k emin + 1" by simp
    then have "(2::real) powi (k + 1) \<le> 2 powi (max k emin + 1)"
      by (simp only: pow2_le_iff)
    then show ?thesis using assms(3) by linarith
  qed
  then have "x / 2 powi e < 2 powi (max k emin + 1) / 2 powi e"
    using pe by (simp add: divide_strict_right_mono)
  also have "\<dots> = 2 powi (int p)"
    by (simp add: power_int_diff [symmetric] e_def)
  also have "\<dots> = of_int (2 ^ p)"
    by simp
  finally have "round_even (x / 2 powi e) \<le> round_even (of_int (2 ^ p))"
    by (intro round_even_mono) simp
  then have "round_even (x / 2 powi e) \<le> 2 ^ p"
    by (simp only: round_even_of_int)
  then have "(of_int (round_even (x / 2 powi e)) :: real) \<le> of_int (2 ^ p)"
    by (simp only: of_int_le_iff)
  then have "fround p emin x \<le> of_int (2 ^ p) * 2 powi e"
    unfolding fr using pe by (simp add: mult_right_mono)
  also have "\<dots> = 2 powi (int p + e)"
    by (simp add: power_int_add)
  also have "int p + e = max k emin + 1"
    by (simp add: e_def)
  finally show "fround p emin x \<le> 2 powi (max k emin + 1)" .
  have "round_even 0 \<le> round_even (x / 2 powi e)"
    using x0 by (intro round_even_mono) simp
  then have "0 \<le> round_even (x / 2 powi e)"
    using round_even_of_int [of 0] by simp
  then show "0 \<le> fround p emin x"
    unfolding fr by simp
  assume that: "emin \<le> k"
  show "2 powi k \<le> fround p emin x"
  proof -
    have ek: "e = k - int p + 1" using that by (simp add: e_def)
    have p1: "int p - 1 = int (p - 1)" using assms(1) by simp
    have "(2::real) powi (int p - 1) = 2 powi k / 2 powi e"
      by (simp add: power_int_diff [symmetric] ek)
    also have "\<dots> \<le> x / 2 powi e"
      using assms(2) pe by (simp add: divide_right_mono)
    finally have "of_int (2 ^ (p - 1)) \<le> x / 2 powi e"
      by (simp add: p1)
    then have "round_even (of_int (2 ^ (p - 1))) \<le> round_even (x / 2 powi e)"
      by (rule round_even_mono)
    then have "2 ^ (p - 1) \<le> round_even (x / 2 powi e)"
      by (simp only: round_even_of_int)
    then have "(of_int (2 ^ (p - 1)) :: real) \<le> of_int (round_even (x / 2 powi e))"
      by (simp only: of_int_le_iff)
    then have "of_int (2 ^ (p - 1)) * 2 powi e \<le> fround p emin x"
      unfolding fr using pe by (simp add: mult_right_mono)
    moreover have "of_int (2 ^ (p - 1)) * 2 powi e = (2::real) powi (int (p - 1) + e)"
      by (simp add: power_int_add)
    moreover have "int (p - 1) + e = k"
      using assms(1) by (simp add: ek)
    ultimately show ?thesis by simp
  qed
qed

lemma fround_nonneg:
  assumes "1 \<le> p" "0 \<le> x"
  shows "0 \<le> fround p emin x"
proof (cases "x = 0")
  case True
  then show ?thesis by (simp add: fround_zero)
next
  case False
  then have "0 < x" using assms(2) by simp
  then show ?thesis
    using ilog2_bounds [of x] fround_binade(3) [OF assms(1), of "ilog2 x" x emin] by simp
qed

lemma fround_mono_pos:
  assumes "1 \<le> p" "0 < x" "x \<le> y"
  shows "fround p emin x \<le> fround p emin y"
proof -
  define k where "k = ilog2 x"
  define j where "j = ilog2 y"
  have y0: "0 < y" using assms(2,3) by linarith
  have kb: "2 powi k \<le> x" "x < 2 powi (k + 1)"
    using ilog2_bounds [OF assms(2)] by (simp_all add: k_def)
  have jb: "2 powi j \<le> y" "y < 2 powi (j + 1)"
    using ilog2_bounds [OF y0] by (simp_all add: j_def)
  have "(2::real) powi k < 2 powi (j + 1)"
    using kb(1) jb(2) assms(3) by linarith
  then have "k < j + 1" by (simp only: pow2_less_iff)
  then have kj: "k \<le> j" by simp
  show ?thesis
  proof (cases "max k emin = max j emin")
    case True
    define e where "e = max k emin - int p + 1"
    have fx: "fround p emin x = of_int (round_even (x / 2 powi e)) * 2 powi e"
      using fround_eq [of k x p emin] kb assms(2) by (simp add: e_def)
    have fy: "fround p emin y = of_int (round_even (y / 2 powi e)) * 2 powi e"
      using fround_eq [of j y p emin] jb y0 True by (simp add: e_def)
    have pe: "(0::real) < 2 powi e" by simp
    have "x / 2 powi e \<le> y / 2 powi e"
      using assms(3) pe by (simp add: divide_right_mono)
    then have "round_even (x / 2 powi e) \<le> round_even (y / 2 powi e)"
      by (rule round_even_mono)
    then have "(of_int (round_even (x / 2 powi e)) :: real) \<le> of_int (round_even (y / 2 powi e))"
      by (simp only: of_int_le_iff)
    then show ?thesis
      unfolding fx fy using pe by (simp add: mult_right_mono)
  next
    case False
    then have lt: "max k emin < j" "emin \<le> j" using kj by auto
    have "fround p emin x \<le> 2 powi (max k emin + 1)"
      using fround_binade(1) [OF assms(1) kb] .
    also have "\<dots> \<le> 2 powi j"
    proof -
      have "max k emin + 1 \<le> j" using lt(1) by linarith
      then show ?thesis by (simp only: pow2_le_iff)
    qed
    also have "\<dots> \<le> fround p emin y"
      using fround_binade(2) [OF assms(1) jb lt(2)] .
    finally show ?thesis .
  qed
qed

lemma fround_mono:
  assumes "1 \<le> p" "x \<le> y"
  shows "fround p emin x \<le> fround p emin y"
proof (cases "0 < x")
  case True
  then show ?thesis using fround_mono_pos [OF assms(1) True assms(2)] by simp
next
  case False
  then have x0: "x \<le> 0" by simp
  have fx0: "fround p emin x \<le> 0"
    using fround_nonneg [OF assms(1), of "- x" emin] x0 by (simp add: fround_minus)
  show ?thesis
  proof (cases "0 \<le> y")
    case True
    then show ?thesis using fx0 fround_nonneg [OF assms(1) True, of emin] by linarith
  next
    case False
    then have "0 < - y" "- y \<le> - x" using assms(2) by simp_all
    then have "fround p emin (- y) \<le> fround p emin (- x)"
      by (rule fround_mono_pos [OF assms(1)])
    then show ?thesis by (simp add: fround_minus)
  qed
qed

lemma fround_error:
  assumes "1 \<le> p" "2 powi emin \<le> x"
  shows "\<bar>fround p emin x - x\<bar> \<le> x * 2 powi (- int p)"
proof -
  have x0: "0 < x"
  proof -
    have "(0::real) < 2 powi emin" by simp
    then show ?thesis using assms(2) by linarith
  qed
  define k where "k = ilog2 x"
  have kb: "2 powi k \<le> x" "x < 2 powi (k + 1)"
    using ilog2_bounds [OF x0] by (simp_all add: k_def)
  have "(2::real) powi emin < 2 powi (k + 1)"
    using assms(2) kb(2) by linarith
  then have "emin < k + 1" by (simp only: pow2_less_iff)
  then have ek: "emin \<le> k" by simp
  define e where "e = k - int p + 1"
  have fr: "fround p emin x = of_int (round_even (x / 2 powi e)) * 2 powi e"
    using fround_eq [of k x p emin] kb x0 ek by (simp add: e_def max_def)
  have pe: "(0::real) < 2 powi e" by simp
  have "fround p emin x - x = (of_int (round_even (x / 2 powi e)) - x / 2 powi e) * 2 powi e"
    unfolding fr by (simp add: algebra_simps)
  then have "\<bar>fround p emin x - x\<bar> = \<bar>of_int (round_even (x / 2 powi e)) - x / 2 powi e\<bar> * 2 powi e"
    by (simp add: abs_mult)
  also have "\<dots> \<le> 1 / 2 * 2 powi e"
    using round_even_error [of "x / 2 powi e"] pe by (simp add: mult_right_mono)
  also have "\<dots> = 2 powi k * 2 powi (- int p)"
    by (simp add: e_def power_int_add power_int_diff power_int_minus field_simps)
  also have "\<dots> \<le> x * 2 powi (- int p)"
    using kb(1) by (simp add: mult_right_mono)
  finally show ?thesis .
qed

lemma fround_fix_le:
  assumes "1 \<le> p" "\<bar>n\<bar> \<le> 2 ^ p" "emin - int p + 1 \<le> e"
  shows "fround p emin (of_int n * 2 powi e) = of_int n * 2 powi e"
proof (cases "\<bar>n\<bar> < 2 ^ p")
  case True
  then show ?thesis using assms(3) by (rule fround_fix)
next
  case False
  then have n: "\<bar>n\<bar> = 2 ^ p" using assms(2) by simp
  obtain q where q: "p = Suc q" using assms(1) by (cases p) simp_all
  have "n = 2 ^ p \<or> n = - (2 ^ p)" using n by (simp add: abs_if split: if_splits)
  then obtain n' where n': "n = 2 * n'" "\<bar>n'\<bar> < 2 ^ p"
  proof
    assume "n = 2 ^ p"
    then have "n = 2 * 2 ^ q" "\<bar>(2::int) ^ q\<bar> < 2 ^ p" by (simp_all add: q)
    then show ?thesis by (rule that)
  next
    assume "n = - (2 ^ p)"
    then have "n = 2 * (- (2 ^ q))" "\<bar>- ((2::int) ^ q)\<bar> < 2 ^ p" by (simp_all add: q)
    then show ?thesis by (rule that)
  qed
  have "of_int n * (2::real) powi e = of_int n' * 2 powi (e + 1)"
    by (simp add: n'(1) power_int_add)
  moreover have "fround p emin (of_int n' * 2 powi (e + 1)) = of_int n' * 2 powi (e + 1)"
    using n'(2) assms(3) by (intro fround_fix) simp_all
  ultimately show ?thesis by simp
qed

text \<open>The result of a rounding is a representable number: an integer of at most \<open>p\<close> bits
  times a power of two that is not below the least spacing.\<close>

lemma fround_repr:
  assumes "1 \<le> p"
  shows "\<exists>n e. fround p emin x = of_int n * 2 powi e \<and> \<bar>n\<bar> \<le> 2 ^ p \<and>
               emin - int p + 1 \<le> e \<and> (x \<noteq> 0 \<longrightarrow> e = max (ilog2 \<bar>x\<bar>) emin - int p + 1)"
proof (cases "x = 0")
  case True
  have "fround p emin x = of_int 0 * 2 powi (emin - int p + 1)"
    using True by (simp add: fround_zero)
  then show ?thesis using True by (intro exI [of _ 0] exI [of _ "emin - int p + 1"]) simp
next
  case False
  define k where "k = ilog2 \<bar>x\<bar>"
  define e where "e = max k emin - int p + 1"
  define r where "r = round_even (x / 2 powi e)"
  have fr: "fround p emin x = of_int r * 2 powi e"
    using False by (simp add: fround_def Let_def k_def e_def r_def)
  have pe: "(0::real) < 2 powi e" by simp
  have ax: "0 < \<bar>x\<bar>" using False by simp
  have kb: "2 powi k \<le> \<bar>x\<bar>" "\<bar>x\<bar> < 2 powi (k + 1)"
    using ilog2_bounds [OF ax] by (simp_all add: k_def)
  have fa: "fround p emin \<bar>x\<bar> = \<bar>of_int r * 2 powi e\<bar>"
  proof (cases "0 \<le> x")
    case True
    then have "0 \<le> fround p emin x" using assms by (intro fround_nonneg)
    then show ?thesis using True fr by simp
  next
    case False
    then have "0 \<le> fround p emin (- x)" using assms by (intro fround_nonneg) simp_all
    then have "fround p emin x \<le> 0" by (simp add: fround_minus)
    moreover have "fround p emin \<bar>x\<bar> = - fround p emin x"
      using False by (simp add: fround_minus)
    ultimately show ?thesis by (simp add: fr)
  qed
  have "\<bar>of_int r * 2 powi e\<bar> \<le> (2::real) powi (max k emin + 1)"
    using fround_binade(1) [OF assms kb, of emin] fa by simp
  also have "\<dots> = 2 ^ p * 2 powi e"
    by (simp add: e_def power_int_add [symmetric] flip: power_int_of_nat)
  finally have "\<bar>of_int r :: real\<bar> * 2 powi e \<le> 2 ^ p * 2 powi e"
    by (simp add: abs_mult)
  then have "\<bar>of_int r :: real\<bar> \<le> 2 ^ p"
    using pe by simp
  then have "(of_int \<bar>r\<bar> :: real) \<le> of_int (2 ^ p)"
    by simp
  then have "\<bar>r\<bar> \<le> 2 ^ p"
    by (simp only: of_int_le_iff)
  moreover have "emin - int p + 1 \<le> e" by (simp add: e_def)
  ultimately show ?thesis
    using fr False by (intro exI [of _ r] exI [of _ e]) (simp add: e_def k_def)
qed

lemma fround_idem:
  assumes "1 \<le> p"
  shows "fround p emin (fround p emin x) = fround p emin x"
proof -
  obtain n e where "fround p emin x = of_int n * 2 powi e" "\<bar>n\<bar> \<le> 2 ^ p" "emin - int p + 1 \<le> e"
    using fround_repr [OF assms, of emin x] by blast
  then show ?thesis using fround_fix_le [OF assms, where n = n and e = e and emin = emin] by simp
qed

lemma fround_half:
  assumes "1 \<le> p" "2 powi (emin + 1) \<le> \<bar>x\<bar>"
  shows "fround p emin (fround p emin x / 2) = fround p emin x / 2"
proof -
  have "(0::real) < 2 powi (emin + 1)" by simp
  then have ax: "0 < \<bar>x\<bar>" using assms(2) by linarith
  then have x0: "x \<noteq> 0" by simp
  have "(2::real) powi (emin + 1) < 2 powi (ilog2 \<bar>x\<bar> + 1)"
    using ilog2_bounds [OF ax] assms(2) by linarith
  then have "emin + 1 < ilog2 \<bar>x\<bar> + 1" by (simp only: pow2_less_iff)
  then have k: "emin + 1 \<le> ilog2 \<bar>x\<bar>" by simp
  obtain n e where ne: "fround p emin x = of_int n * 2 powi e" "\<bar>n\<bar> \<le> 2 ^ p"
      "e = max (ilog2 \<bar>x\<bar>) emin - int p + 1"
    using fround_repr [OF assms(1), of emin x] x0 by blast
  have e: "emin - int p + 1 \<le> e - 1" using k ne(3) by simp
  have "fround p emin x / 2 = of_int n * 2 powi (e - 1)"
    by (simp add: ne(1) power_int_diff)
  then show ?thesis
    using fround_fix_le [OF assms(1) ne(2) e] by simp
qed

section \<open>Properties of the library's conversion to seconds\<close>

lemma fround_eval:
  assumes "2 powi k \<le> \<bar>x\<bar>" "\<bar>x\<bar> < 2 powi (k + 1)"
    and "\<bar>x / 2 powi (max k emin - int p + 1) - of_int n\<bar> < 1 / 2"
  shows "fround p emin x = of_int n * 2 powi (max k emin - int p + 1)"
  using fround_eq [OF assms(1,2), of p emin] round_even_eqI [OF assms(3)] by simp

lemma to_float_fix:
  "\<bar>n\<bar> \<le> 2 ^ 24 \<Longrightarrow> - 149 \<le> e \<Longrightarrow> to_float (of_int n * 2 powi e) = of_int n * 2 powi e"
  unfolding to_float_def by (rule fround_fix_le) simp_all

lemma to_double_fix:
  "\<bar>n\<bar> \<le> 2 ^ 53 \<Longrightarrow> - 1074 \<le> e \<Longrightarrow> to_double (of_int n * 2 powi e) = of_int n * 2 powi e"
  unfolding to_double_def by (rule fround_fix_le) simp_all

lemma to_float_mono: "x \<le> y \<Longrightarrow> to_float x \<le> to_float y"
  unfolding to_float_def by (rule fround_mono) simp_all

lemma to_double_mono: "x \<le> y \<Longrightarrow> to_double x \<le> to_double y"
  unfolding to_double_def by (rule fround_mono) simp_all

lemma to_float_0: "to_float 0 = 0"
  by (simp add: to_float_def fround_zero)

lemma to_double_0: "to_double 0 = 0"
  by (simp add: to_double_def fround_zero)

lemma to_float_idem: "to_float (to_float x) = to_float x"
  unfolding to_float_def by (rule fround_idem) simp

lemma to_float_nat: "n \<le> 2 ^ 24 \<Longrightarrow> to_float (real n) = real n"
  using to_float_fix [of "int n" 0] by simp

lemma to_float_sandwich:
  assumes "l \<le> x" "x \<le> u" "to_float l = y" "to_float u = y"
  shows "to_float x = y"
  using to_float_mono [OF assms(1)] to_float_mono [OF assms(2)] assms(3,4) by simp

lemma store_mono: "x \<le> y \<Longrightarrow> store t x \<le> store t y"
  by (cases t) (simp_all add: to_float_mono to_double_mono)

lemma store_fix:
  "\<bar>n\<bar> \<le> 2 ^ 24 \<Longrightarrow> - 149 \<le> e \<Longrightarrow> store t (of_int n * 2 powi e) = of_int n * 2 powi e"
proof (cases t)
  case Single
  assume "\<bar>n\<bar> \<le> 2 ^ 24" "- 149 \<le> e"
  then show ?thesis by (simp add: Single to_float_fix)
next
  case Double
  assume a: "\<bar>n\<bar> \<le> 2 ^ 24" "- 149 \<le> e"
  have "(2::int) ^ 24 \<le> 2 ^ 53" by simp
  then have "\<bar>n\<bar> \<le> 2 ^ 53" using a(1) by linarith
  then show ?thesis using a(2) by (simp add: Double to_double_fix)
qed

text \<open>The \<open>double\<close> nearest to \<open>1e-9\<close> lies between two neighbouring multiples of \<open>2^-70\<close>.\<close>

lemma nano_bounds:
  "1180591620717 * 2 powi (- 70) \<le> to_double (1 / 1000000000)"
  "to_double (1 / 1000000000) \<le> 1180591620718 * 2 powi (- 70)"
proof -
  have "to_double (of_int 1180591620717 * 2 powi (- 70)) \<le> to_double (1 / 1000000000)"
    by (rule to_double_mono) simp
  then show "1180591620717 * 2 powi (- 70) \<le> to_double (1 / 1000000000)"
    using to_double_fix [of 1180591620717 "- 70"] by simp
  have "to_double (1 / 1000000000) \<le> to_double (of_int 1180591620718 * 2 powi (- 70))"
    by (rule to_double_mono) simp
  then show "to_double (1 / 1000000000) \<le> 1180591620718 * 2 powi (- 70)"
    using to_double_fix [of 1180591620718 "- 70"] by simp
qed

lemma toSec_small:
  assumes "0 \<le> d" "d < 1000000000"
  shows "toSec d = to_double (to_double (to_double (1 / 1000000000) * of_int d))"
  using assms by (simp add: toSec_def)

lemma toSec_lower:
  assumes "0 \<le> d" "d < 1000000000" "\<bar>n\<bar> \<le> 2 ^ 53" "- 1074 \<le> e"
    and "of_int n * 2 powi e \<le> (1180591620717::real) * 2 powi (- 70) * of_int d"
  shows "of_int n * 2 powi e \<le> toSec d"
proof -
  let ?l = "of_int n * (2::real) powi e"
  have f: "to_double ?l = ?l" using assms(3,4) by (rule to_double_fix)
  have "1180591620717 * 2 powi (- 70) * of_int d \<le> to_double (1 / 1000000000) * of_int d"
    using nano_bounds(1) assms(1) by (intro mult_right_mono) simp_all
  then have "?l \<le> to_double (1 / 1000000000) * of_int d"
    using assms(5) by linarith
  then have "to_double ?l \<le> to_double (to_double (1 / 1000000000) * of_int d)"
    by (rule to_double_mono)
  then have "to_double ?l \<le> to_double (to_double (to_double (1 / 1000000000) * of_int d))"
    unfolding f by (rule to_double_mono [of ?l, unfolded f])
  then show ?thesis
    unfolding f toSec_small [OF assms(1,2)] .
qed

lemma toSec_upper:
  assumes "0 \<le> d" "d < 1000000000" "\<bar>n\<bar> \<le> 2 ^ 53" "- 1074 \<le> e"
    and "(1180591620718::real) * 2 powi (- 70) * of_int d \<le> of_int n * 2 powi e"
  shows "toSec d \<le> of_int n * 2 powi e"
proof -
  let ?u = "of_int n * (2::real) powi e"
  have f: "to_double ?u = ?u" using assms(3,4) by (rule to_double_fix)
  have "to_double (1 / 1000000000) * of_int d \<le> 1180591620718 * 2 powi (- 70) * of_int d"
    using nano_bounds(2) assms(1) by (intro mult_right_mono) simp_all
  then have "to_double (1 / 1000000000) * of_int d \<le> ?u"
    using assms(5) by linarith
  then have "to_double (to_double (1 / 1000000000) * of_int d) \<le> to_double ?u"
    by (rule to_double_mono)
  then have "to_double (to_double (to_double (1 / 1000000000) * of_int d)) \<le> to_double ?u"
    unfolding f by (rule to_double_mono [of _ ?u, unfolded f])
  then show ?thesis
    unfolding f toSec_small [OF assms(1,2)] .
qed

lemma toSec_0: "toSec 0 = 0"
  by (simp add: toSec_def to_double_0)

lemma toSec_seconds:
  assumes "\<bar>s\<bar> \<le> 2 ^ 53"
  shows "toSec (s * 1000000000) = of_int s"
  using to_double_fix [OF assms, of 0] by (simp add: toSec_def to_double_0)

lemma toSec_pos:
  assumes "0 < d"
  shows "2 powi (- 30) \<le> toSec d"
proof -
  define s where "s = d div 1000000000"
  define r where "r = d mod 1000000000"
  define q where "q = to_double (to_double (1 / 1000000000) * of_int r)"
  have ts: "toSec d = to_double (of_int s + q)"
    by (simp add: toSec_def s_def r_def q_def)
  have r0: "0 \<le> r" "r < 1000000000" by (simp_all add: r_def)
  have s0: "0 \<le> s" using assms by (simp add: s_def pos_imp_zdiv_nonneg_iff)
  have c0: "0 \<le> to_double (1 / 1000000000)"
    using to_double_mono [of 0 "1 / 1000000000"] by (simp add: to_double_0)
  have "to_double 0 \<le> q"
    unfolding q_def using c0 r0(1) by (intro to_double_mono) simp
  then have q0: "0 \<le> q" by (simp add: to_double_0)
  have f30: "to_double (2 powi (- 30)) = 2 powi (- 30)"
    using to_double_fix [of 1 "- 30"] by simp
  show ?thesis
  proof (cases "s = 0")
    case False
    then have "1 \<le> s" using s0 by simp
    then have "(1::real) \<le> of_int s + q" using q0 by (simp add: add_increasing2)
    then have "to_double 1 \<le> toSec d"
      unfolding ts by (rule to_double_mono)
    moreover have "to_double 1 = 1" using to_double_fix [of 1 0] by simp
    ultimately show ?thesis by simp
  next
    case True
    have "d = s * 1000000000 + r" by (simp add: s_def r_def)
    then have "1 \<le> r" using True assms by simp
    then have "(1::real) \<le> of_int r" by simp
    then have "1180591620717 * 2 powi (- 70) * 1 \<le> to_double (1 / 1000000000) * of_int r"
      using nano_bounds(1) by (intro mult_mono) simp_all
    then have "2 powi (- 30) \<le> to_double (1 / 1000000000) * of_int r"
      by simp
    then have "to_double (2 powi (- 30)) \<le> q"
      unfolding q_def by (rule to_double_mono)
    then have "2 powi (- 30) \<le> q"
      unfolding f30 .
    then have "to_double (2 powi (- 30)) \<le> toSec d"
      unfolding ts using True by (intro to_double_mono) simp
    then show ?thesis unfolding f30 .
  qed
qed

lemma toSec_neg:
  assumes "d < 0"
  shows "toSec d \<le> - (2 powi (- 30))"
proof -
  define s where "s = d div 1000000000"
  define r where "r = d mod 1000000000"
  define q where "q = to_double (to_double (1 / 1000000000) * of_int r)"
  have ts: "toSec d = to_double (of_int s + q)"
    by (simp add: toSec_def s_def r_def q_def)
  have "r < 1000000000" by (simp add: r_def)
  then have r0: "0 \<le> r" "r \<le> 999999999" by (simp_all add: r_def)
  have s1: "s \<le> - 1" using assms by (simp add: s_def div_neg_pos_less0 order.strict_implies_order) 
  have "to_double (1 / 1000000000) * of_int r \<le> 1180591620718 * 2 powi (- 70) * 999999999"
    using nano_bounds(2) r0 by (intro mult_mono) simp_all
  also have "\<dots> \<le> of_int 1073741823 * 2 powi (- 30)"
    by simp
  finally have "q \<le> to_double (of_int 1073741823 * 2 powi (- 30))"
    unfolding q_def by (rule to_double_mono)
  then have q: "q \<le> of_int 1073741823 * 2 powi (- 30)"
    using to_double_fix [of 1073741823 "- 30"] by simp
  have "of_int s + q \<le> - 1 + of_int 1073741823 * 2 powi (- 30)"
    using s1 q by (simp add: add_mono)
  also have "\<dots> = of_int (- 1) * 2 powi (- 30)"
    by simp
  finally have "toSec d \<le> to_double (of_int (- 1) * 2 powi (- 30))"
    unfolding ts by (rule to_double_mono)
  then show ?thesis
    using to_double_fix [of "- 1" "- 30"] by simp
qed

lemma elapsed_pos: "a < b \<Longrightarrow> 2 powi (- 30) \<le> elapsed a b"
proof -
  assume "a < b"
  then have "2 powi (- 30) \<le> toSec (b - a)" by (intro toSec_pos) simp
  then have "to_float (2 powi (- 30)) \<le> elapsed a b"
    unfolding elapsed_def by (rule to_float_mono)
  then show ?thesis using to_float_fix [of 1 "- 30"] by simp
qed

lemma elapsed_neg: "b < a \<Longrightarrow> elapsed a b \<le> - (2 powi (- 30))"
proof -
  assume "b < a"
  then have "toSec (b - a) \<le> - (2 powi (- 30))" by (intro toSec_neg) simp
  then have "elapsed a b \<le> to_float (- (2 powi (- 30)))"
    unfolding elapsed_def by (rule to_float_mono)
  then show ?thesis using to_float_fix [of "- 1" "- 30"] by simp
qed

lemma elapsed_same: "elapsed a a = 0"
  by (simp add: elapsed_def toSec_0 to_float_0)

lemma elapsed_small_nonpos:
  assumes "elapsed a b < 2 powi (- 30)"
  shows "elapsed a b \<le> 0"
proof (cases "a < b")
  case True
  then show ?thesis using elapsed_pos [of a b] assms by linarith
next
  case False
  show ?thesis
  proof (cases "a = b")
    case True
    then show ?thesis by (simp add: elapsed_same)
  next
    case ne: False
    then have "b < a" using False by simp
    then have "elapsed a b \<le> - (2 powi (- 30))" by (rule elapsed_neg)
    moreover have "(0::real) < 2 powi (- 30)" by simp
    ultimately show ?thesis by linarith
  qed
qed

lemma elapsed_half: "to_float (elapsed a b / 2) = elapsed a b / 2"
proof (cases "a = b")
  case True
  then show ?thesis by (simp add: elapsed_same to_float_0)
next
  case False
  have "2 powi (- 30) \<le> \<bar>toSec (b - a)\<bar>"
  proof (cases "a < b")
    case True
    then have "2 powi (- 30) \<le> toSec (b - a)" by (intro toSec_pos) simp
    then show ?thesis by linarith
  next
    case nl: False
    then have "b - a < 0" using False by simp
    then have "toSec (b - a) \<le> - (2 powi (- 30))" by (rule toSec_neg)
    then show ?thesis by linarith
  qed
  moreover have "(2::real) powi (- 126 + 1) \<le> 2 powi (- 30)"
    by simp
  ultimately have "2 powi (- 126 + 1) \<le> \<bar>toSec (b - a)\<bar>" by linarith
  then show ?thesis
    unfolding elapsed_def to_float_def by (intro fround_half) simp_all
qed

lemma elapsed_eval:
  assumes "0 \<le> b - a" "b - a < 1000000000"
    and "\<bar>nl\<bar> \<le> 2 ^ 53" "- 1074 \<le> el"
    and "of_int nl * 2 powi el \<le> (1180591620717::real) * 2 powi (- 70) * of_int (b - a)"
    and "\<bar>nu\<bar> \<le> 2 ^ 53" "- 1074 \<le> eu"
    and "(1180591620718::real) * 2 powi (- 70) * of_int (b - a) \<le> of_int nu * 2 powi eu"
    and "to_float (of_int nl * 2 powi el) = y" "to_float (of_int nu * 2 powi eu) = y"
  shows "elapsed a b = y"
  unfolding elapsed_def
  using toSec_lower [OF assms(1,2,3,4,5)] toSec_upper [OF assms(1,2,6,7,8)] assms(9,10)
  by (rule to_float_sandwich)

lemma elapsed_le:
  assumes "0 \<le> b - a" "b - a < 1000000000" "\<bar>n\<bar> \<le> 2 ^ 24" "- 149 \<le> e"
    and "(1180591620718::real) * 2 powi (- 70) * of_int (b - a) \<le> of_int n * 2 powi e"
  shows "elapsed a b \<le> of_int n * 2 powi e"
proof -
  have "(2::int) ^ 24 \<le> 2 ^ 53" by simp
  then have n: "\<bar>n\<bar> \<le> 2 ^ 53" using assms(3) by linarith
  have e: "- 1074 \<le> e" using assms(4) by simp
  have "toSec (b - a) \<le> of_int n * 2 powi e"
    using assms(1,2) n e assms(5) by (rule toSec_upper)
  then have "elapsed a b \<le> to_float (of_int n * 2 powi e)"
    unfolding elapsed_def by (rule to_float_mono)
  then show ?thesis using to_float_fix [OF assms(3,4)] by simp
qed

lemma elapsed_ge:
  assumes "0 \<le> b - a" "b - a < 1000000000" "\<bar>n\<bar> \<le> 2 ^ 24" "- 149 \<le> e"
    and "of_int n * 2 powi e \<le> (1180591620717::real) * 2 powi (- 70) * of_int (b - a)"
  shows "of_int n * 2 powi e \<le> elapsed a b"
proof -
  have "(2::int) ^ 24 \<le> 2 ^ 53" by simp
  then have n: "\<bar>n\<bar> \<le> 2 ^ 53" using assms(3) by linarith
  have e: "- 1074 \<le> e" using assms(4) by simp
  have "of_int n * 2 powi e \<le> toSec (b - a)"
    using assms(1,2) n e assms(5) by (rule toSec_lower)
  then have "to_float (of_int n * 2 powi e) \<le> elapsed a b"
    unfolding elapsed_def by (rule to_float_mono)
  then show ?thesis using to_float_fix [OF assms(3,4)] by simp
qed

lemma elapsed_seconds:
  assumes "\<bar>s\<bar> \<le> 2 ^ 24" "b - a = s * 1000000000"
  shows "elapsed a b = of_int s"
proof -
  have "(2::int) ^ 24 \<le> 2 ^ 53" by simp
  then have "\<bar>s\<bar> \<le> 2 ^ 53" using assms(1) by linarith
  then have "toSec (b - a) = of_int s" unfolding assms(2) by (rule toSec_seconds)
  then show ?thesis using to_float_fix [OF assms(1), of 0] by (simp add: elapsed_def)
qed

section \<open>Properties of the topic monitor\<close>

lemma length_gaps: "length (gaps ts) = length ts - 1"
  by (simp add: gaps_def)

lemma nth_gaps: "i < length ts - 1 \<Longrightarrow> gaps ts ! i = elapsed (ts ! i) (ts ! (i + 1))"
  by (simp add: gaps_def)

lemma set_gaps:
  "(\<forall>g \<in> set (gaps ts). P g) = (\<forall>j. j < length ts - 1 \<longrightarrow> P (elapsed (ts ! j) (ts ! (j + 1))))"
  by (auto simp: gaps_def)

lemma gaps_two: "gaps [a, b] = [elapsed a b]"
  by (simp add: gaps_def)

lemma gaps_three: "gaps [a, b, c] = [elapsed a b, elapsed b c]"
  by (simp add: gaps_def upt_rec [of 0 2] upt_rec [of 1 2] upt_rec [of 2 2])

lemma gaps_four: "gaps [a, b, c, d] = [elapsed a b, elapsed b c, elapsed c d]"
  by (simp add: gaps_def upt_rec [of 0 3] upt_rec [of 1 3] upt_rec [of 2 3] upt_rec [of 3 3])

lemma scan_stamps_strict:
  assumes "\<not> tm_use_average m"
  shows "fst (scan_stamps m i st s) =
     (st \<and> (\<forall>j. i \<le> j \<and> j < length (tm_stamps m) - 1 \<longrightarrow>
                elapsed (tm_stamps m ! j) (tm_stamps m ! (j + 1)) \<le> tm_min_time m))"
  using assms
proof (induction m i st s rule: scan_stamps.induct)
  case (1 m i st s)
  let ?n = "length (tm_stamps m) - 1"
  let ?g = "\<lambda>j. elapsed (tm_stamps m ! j) (tm_stamps m ! (j + 1))"
  show ?case
  proof (cases "i < ?n")
    case False
    then show ?thesis by (simp add: scan_stamps.simps [of m i st s])
  next
    case True
    show ?thesis
    proof (cases "?g i > tm_min_time m")
      case over: True
      have "\<not> (\<forall>j. i \<le> j \<and> j < ?n \<longrightarrow> ?g j \<le> tm_min_time m)"
        using True over by (metis le_refl not_le)
      then show ?thesis
        using True over "1.prems" by (simp add: scan_stamps.simps [of m i st s])
    next
      case under: False
      have split: "(\<forall>j. i \<le> j \<and> j < ?n \<longrightarrow> ?g j \<le> tm_min_time m) =
                   (\<forall>j. i + 1 \<le> j \<and> j < ?n \<longrightarrow> ?g j \<le> tm_min_time m)"
      proof
        assume a: "\<forall>j. i \<le> j \<and> j < ?n \<longrightarrow> ?g j \<le> tm_min_time m"
        show "\<forall>j. i + 1 \<le> j \<and> j < ?n \<longrightarrow> ?g j \<le> tm_min_time m"
          using a by auto
      next
        assume a: "\<forall>j. i + 1 \<le> j \<and> j < ?n \<longrightarrow> ?g j \<le> tm_min_time m"
        show "\<forall>j. i \<le> j \<and> j < ?n \<longrightarrow> ?g j \<le> tm_min_time m"
        proof (intro allI impI)
          fix j assume j: "i \<le> j \<and> j < ?n"
          show "?g j \<le> tm_min_time m"
          proof (cases "j = i")
            case True then show ?thesis using under by simp
          next
            case False then show ?thesis using a j by auto
          qed
        qed
      qed
      have "fst (scan_stamps m i st s) = fst (scan_stamps m (i + 1) st (to_float (s + ?g i)))"
        using True under by (simp add: scan_stamps.simps [of m i st s])
      also have "\<dots> = (st \<and> (\<forall>j. i + 1 \<le> j \<and> j < ?n \<longrightarrow> ?g j \<le> tm_min_time m))"
        using "1.IH" [OF True refl] under "1.prems" by simp
      finally show ?thesis using split by simp
    qed
  qed
qed

lemma scan_stamps_average:
  assumes "tm_use_average m"
  shows "scan_stamps m i st s =
     (st, foldl (\<lambda>s g. to_float (s + g)) s (drop i (gaps (tm_stamps m))))"
  using assms
proof (induction m i st s rule: scan_stamps.induct)
  case (1 m i st s)
  let ?n = "length (tm_stamps m) - 1"
  let ?g = "\<lambda>j. elapsed (tm_stamps m ! j) (tm_stamps m ! (j + 1))"
  let ?f = "\<lambda>s g. to_float (s + g)"
  show ?case
  proof (cases "i < ?n")
    case False
    then show ?thesis by (simp add: scan_stamps.simps [of m i st s] length_gaps)
  next
    case True
    have d: "drop i (gaps (tm_stamps m)) = ?g i # drop (Suc i) (gaps (tm_stamps m))"
      using True Cons_nth_drop_Suc [of i "gaps (tm_stamps m)"]
      by (simp add: length_gaps nth_gaps)
    have "scan_stamps m i st s = scan_stamps m (i + 1) st (to_float (s + ?g i))"
      using True "1.prems" by (simp add: scan_stamps.simps [of m i st s])
    also have "\<dots> = (st, foldl ?f (to_float (s + ?g i)) (drop (i + 1) (gaps (tm_stamps m))))"
      using "1.IH" [OF True refl] "1.prems" by simp
    also have "foldl ?f (to_float (s + ?g i)) (drop (i + 1) (gaps (tm_stamps m))) =
               foldl ?f s (drop i (gaps (tm_stamps m)))"
      by (simp add: d)
    finally show ?thesis .
  qed
qed

lemma run_retain_status: "tm_status (run_retain m) = tm_status m"
  by (simp add: run_retain_def Let_def)

lemma run_check_stamps: "tm_stamps (run_check m) = tm_stamps m"
  by (simp add: run_check_def Let_def split: prod.splits)

lemma run_status: "tm_status (TopicMonitor_run m) = tm_status (run_check m)"
  by (simp add: TopicMonitor_run_def run_retain_status)

lemma run_check_strict:
  assumes "2 \<le> length (tm_stamps m)" "\<not> tm_use_average m"
  shows "tm_status (run_check m) = (\<forall>g \<in> set (gaps (tm_stamps m)). g \<le> tm_min_time m)"
proof -
  have "tm_status (run_check m) = fst (scan_stamps m 0 True 0)"
    using assms by (simp add: run_check_def split: prod.splits)
  then show ?thesis
    using assms(2) by (simp add: scan_stamps_strict set_gaps)
qed

lemma run_check_strict_list:
  assumes "2 \<le> length (tm_stamps m)" "\<not> tm_use_average m"
  shows "tm_status (run_check m) = list_all (\<lambda>g. g \<le> tm_min_time m) (gaps (tm_stamps m))"
  using run_check_strict [OF assms] by (simp add: list_all_iff)

lemma run_check_average:
  assumes "2 \<le> length (tm_stamps m)" "tm_use_average m"
  shows "tm_status (run_check m) =
           (to_float (float_sum (gaps (tm_stamps m)) / to_float (real (length (tm_stamps m))))
              \<le> tm_min_time m)"
  using assms
  by (auto simp: run_check_def scan_stamps_average float_sum_def Let_def)

lemma run_check_few:
  "length (tm_stamps m) < 2 \<Longrightarrow> tm_status (run_check m) = False"
  by (simp add: run_check_def)

lemma fold_examine:
  "fold (\<lambda>g healthy. if g > (b::real) then False else healthy) gs h =
     (h \<and> (\<forall>g \<in> set gs. g \<le> b))"
  by (induction gs arbitrary: h) auto

lemma examine_all_gaps_iff:
  "examine_all_gaps b ts = (\<forall>g \<in> set (gaps ts). g \<le> b)"
  by (simp add: examine_all_gaps_def fold_examine)

lemma configured_TopicMonitor:
  "min_freq \<noteq> 0 \<Longrightarrow> configured h (TopicMonitor h name topic_name min_freq use_average rate s0)"
  by (simp add: configured_def TopicMonitor_def)

lemma configured_topicCB: "configured h (topicCB t m) = configured h m"
  by (simp add: configured_def topicCB_def)

lemma configured_run: "configured h (TopicMonitor_run m) = configured h m"
  by (simp add: configured_def TopicMonitor_run_def run_retain_def run_check_def Let_def
           split: prod.splits)

lemma configured_monitor_exec: "configured h (monitor_exec es m) = configured h m"
  unfolding monitor_exec_def
proof (induction es arbitrary: m)
  case Nil
  show ?case by simp
next
  case (Cons e es)
  show ?case
    by (cases e) (simp_all add: Cons.IH configured_topicCB configured_run)
qed

text \<open>The stored minimum interval for the frequencies of the examples.\<close>

lemma store_eighth: "store t (1 / 8) = 1 / 8"
proof -
  have "store t (of_int 1 * 2 powi (- 3)) = of_int 1 * 2 powi (- 3)"
    by (rule store_fix) simp_all
  then show ?thesis by simp
qed

lemma store_sixteenth: "store t (1 / 16) = 1 / 16"
proof -
  have "store t (of_int 1 * 2 powi (- 4)) = of_int 1 * 2 powi (- 4)"
    by (rule store_fix) simp_all
  then show ?thesis by simp
qed

lemma min_time_8:
  "tm_min_time (TopicMonitor h name topic_name 8 use_average rate s0) = 1 / 8"
  by (simp add: TopicMonitor_def store_eighth)

lemma min_time_10:
  "1 / 16 \<le> tm_min_time (TopicMonitor h name topic_name 10 use_average rate s0)"
  "tm_min_time (TopicMonitor h name topic_name 10 use_average rate s0) \<le> 1 / 8"
proof -
  let ?q = "store (min_freq_type h) (1 / 10)"
  have "store (min_freq_type h) (1 / 16) \<le> ?q" by (rule store_mono) simp
  then have l: "1 / 16 \<le> ?q" by (simp only: store_sixteenth)
  have "?q \<le> store (min_freq_type h) (1 / 8)" by (rule store_mono) simp
  then have u: "?q \<le> 1 / 8" by (simp only: store_eighth)
  have "store (min_time_type h) (1 / 16) \<le> store (min_time_type h) ?q"
    using l by (rule store_mono)
  then have "1 / 16 \<le> store (min_time_type h) ?q" by (simp only: store_sixteenth)
  then show "1 / 16 \<le> tm_min_time (TopicMonitor h name topic_name 10 use_average rate s0)"
    by (simp add: TopicMonitor_def)
  have "store (min_time_type h) ?q \<le> store (min_time_type h) (1 / 8)"
    using u by (rule store_mono)
  then have "store (min_time_type h) ?q \<le> 1 / 8" by (simp only: store_eighth)
  then show "tm_min_time (TopicMonitor h name topic_name 10 use_average rate s0) \<le> 1 / 8"
    by (simp add: TopicMonitor_def)
qed

text \<open>The gaps of the examples, as the evaluation computes them.\<close>

lemma elapsed_50ms: "elapsed 0 50000000 \<le> 1 / 16"
proof -
  have "elapsed 0 50000000 \<le> of_int 1 * 2 powi (- 4)"
    by (rule elapsed_le) simp_all
  then show ?thesis by simp
qed

lemma elapsed_60ms: "elapsed 50000000 110000000 \<le> 1 / 16"
proof -
  have "elapsed 50000000 110000000 \<le> of_int 1 * 2 powi (- 4)"
    by (rule elapsed_le) simp_all
  then show ?thesis by simp
qed

lemma elapsed_190ms: "3 / 16 \<le> elapsed 110000000 300000000"
proof -
  have "of_int 3 * 2 powi (- 4) \<le> elapsed 110000000 300000000"
    by (rule elapsed_ge) simp_all
  then show ?thesis by simp
qed

lemma to_float_quarter_below: "to_float (of_int 536870911 * 2 powi (- 31)) = 1 / 4"
proof -
  have "fround 24 (- 126) (of_int 536870911 * 2 powi (- 31)) =
          of_int 16777216 * 2 powi (max (- 3) (- 126) - int 24 + 1)"
    by (rule fround_eval) simp_all
  then show ?thesis by (simp add: to_float_def)
qed

lemma to_float_quarter_above: "to_float (of_int 67108865 * 2 powi (- 28)) = 1 / 4"
proof -
  have "fround 24 (- 126) (of_int 67108865 * 2 powi (- 28)) =
          of_int 8388608 * 2 powi (max (- 2) (- 126) - int 24 + 1)"
    by (rule fround_eval) simp_all
  then show ?thesis by (simp add: to_float_def)
qed

lemma to_float_eighth_below: "to_float (of_int 1073741823 * 2 powi (- 33)) = 1 / 8"
proof -
  have "fround 24 (- 126) (of_int 1073741823 * 2 powi (- 33)) =
          of_int 16777216 * 2 powi (max (- 4) (- 126) - int 24 + 1)"
    by (rule fround_eval) simp_all
  then show ?thesis by (simp add: to_float_def)
qed

lemma to_float_eighth_above: "to_float (of_int 67108865 * 2 powi (- 29)) = 1 / 8"
proof -
  have "fround 24 (- 126) (of_int 67108865 * 2 powi (- 29)) =
          of_int 8388608 * 2 powi (max (- 3) (- 126) - int 24 + 1)"
    by (rule fround_eval) simp_all
  then show ?thesis by (simp add: to_float_def)
qed

text \<open>
  A gap of 125000000 or 125000001 ns is the \<open>float\<close> \<open>1/8\<close>, and a gap of 250000000 to
  250000002 ns is the \<open>float\<close> \<open>1/4\<close>: around \<open>1/8\<close> the floats are \<open>2^-26\<close> (15 ns) apart.
\<close>

lemma elapsed_eighth:
  assumes "125000000 \<le> b - a" "b - a \<le> 125000001"
  shows "elapsed a b = 1 / 8"
proof (rule elapsed_eval [where nl = 1073741823 and el = "- 33" and nu = 67108865 and eu = "- 29"])
  show "0 \<le> b - a" "b - a < 1000000000" using assms by simp_all
  show "\<bar>1073741823::int\<bar> \<le> 2 ^ 53" "- 1074 \<le> (- 33 :: int)"
    "\<bar>67108865::int\<bar> \<le> 2 ^ 53" "- 1074 \<le> (- 29 :: int)" by simp_all
  have d: "(125000000::real) \<le> of_int (b - a)" "of_int (b - a) \<le> (125000001::real)"
    using assms by linarith+
  have "of_int 1073741823 * 2 powi (- 33) \<le> (1180591620717::real) * 2 powi (- 70) * 125000000"
    by simp
  also have "\<dots> \<le> 1180591620717 * 2 powi (- 70) * of_int (b - a)"
    using d(1) by (intro mult_left_mono) simp_all
  finally show "of_int 1073741823 * 2 powi (- 33)
      \<le> (1180591620717::real) * 2 powi (- 70) * of_int (b - a)" .
  have "(1180591620718::real) * 2 powi (- 70) * of_int (b - a)
      \<le> 1180591620718 * 2 powi (- 70) * 125000001"
    using d(2) by (intro mult_left_mono) simp_all
  also have "\<dots> \<le> of_int 67108865 * 2 powi (- 29)"
    by simp
  finally show "(1180591620718::real) * 2 powi (- 70) * of_int (b - a)
      \<le> of_int 67108865 * 2 powi (- 29)" .
  show "to_float (of_int 1073741823 * 2 powi (- 33)) = 1 / 8"
    by (rule to_float_eighth_below)
  show "to_float (of_int 67108865 * 2 powi (- 29)) = 1 / 8"
    by (rule to_float_eighth_above)
qed

lemma elapsed_quarter:
  assumes "250000000 \<le> b - a" "b - a \<le> 250000002"
  shows "elapsed a b = 1 / 4"
proof (rule elapsed_eval [where nl = 536870911 and el = "- 31" and nu = 67108865 and eu = "- 28"])
  show "0 \<le> b - a" "b - a < 1000000000" using assms by simp_all
  show "\<bar>536870911::int\<bar> \<le> 2 ^ 53" "- 1074 \<le> (- 31 :: int)"
    "\<bar>67108865::int\<bar> \<le> 2 ^ 53" "- 1074 \<le> (- 28 :: int)" by simp_all
  have d: "(250000000::real) \<le> of_int (b - a)" "of_int (b - a) \<le> (250000002::real)"
    using assms by linarith+
  have "of_int 536870911 * 2 powi (- 31) \<le> (1180591620717::real) * 2 powi (- 70) * 250000000"
    by simp
  also have "\<dots> \<le> 1180591620717 * 2 powi (- 70) * of_int (b - a)"
    using d(1) by (intro mult_left_mono) simp_all
  finally show "of_int 536870911 * 2 powi (- 31)
      \<le> (1180591620717::real) * 2 powi (- 70) * of_int (b - a)" .
  have "(1180591620718::real) * 2 powi (- 70) * of_int (b - a)
      \<le> 1180591620718 * 2 powi (- 70) * 250000002"
    using d(2) by (intro mult_left_mono) simp_all
  also have "\<dots> \<le> of_int 67108865 * 2 powi (- 28)"
    by simp
  finally show "(1180591620718::real) * 2 powi (- 70) * of_int (b - a)
      \<le> of_int 67108865 * 2 powi (- 28)" .
  show "to_float (of_int 536870911 * 2 powi (- 31)) = 1 / 4"
    by (rule to_float_quarter_below)
  show "to_float (of_int 67108865 * 2 powi (- 28)) = 1 / 4"
    by (rule to_float_quarter_above)
qed

text \<open>
  C6: with fewer than two stamps in the log (none or one), an evaluation sets the verdict
  to unhealthy, whatever the mode of the monitor.
\<close>

theorem too_few_stamps_unhealthy:
  "length (tm_stamps m) < 2 \<Longrightarrow> tm_status (TopicMonitor_run m) = False"
  by (simp add: run_status run_check_few)

text \<open>
  An instance in each mode: one stamp in strict mode, none in averaging mode.
\<close>

theorem too_few_stamps_unhealthy_witness:
  "length (tm_stamps (topicCB 1 (TopicMonitor float_members ''imu'' ''/imu/data'' 10 False 10 True))) < 2
   \<and> tm_status (TopicMonitor_run
         (topicCB 1 (TopicMonitor float_members ''imu'' ''/imu/data'' 10 False 10 True))) = False
   \<and> length (tm_stamps (TopicMonitor float_members ''imu'' ''/imu/data'' 10 True 10 True)) < 2
   \<and> tm_status (TopicMonitor_run
         (TopicMonitor float_members ''imu'' ''/imu/data'' 10 True 10 True)) = False"
  using too_few_stamps_unhealthy
          [of "topicCB 1 (TopicMonitor float_members ''imu'' ''/imu/data'' 10 False 10 True)"]
        too_few_stamps_unhealthy
          [of "TopicMonitor float_members ''imu'' ''/imu/data'' 10 True 10 True"]
  by (simp add: topicCB_def TopicMonitor_def)

text \<open>
  C5: after an evaluation the log holds exactly the most recent stamp of the log it
  started from, and stays empty when it was empty; every older stamp is gone.
\<close>

theorem retention_keeps_last_stamp:
  "tm_stamps (TopicMonitor_run m) = (if tm_stamps m = [] then [] else [last (tm_stamps m)])"
proof (cases "tm_stamps m = []")
  case True
  then show ?thesis
    by (simp add: TopicMonitor_run_def run_retain_def run_check_stamps)
next
  case False
  then have "1 \<le> length (tm_stamps m)"
    by (cases "tm_stamps m") simp_all
  then show ?thesis
    using False
    by (simp add: TopicMonitor_run_def run_retain_def run_check_stamps Let_def last_conv_nth)
qed

text \<open>
  The log of the three stamps 1, 2, 3 becomes the log of 3 alone, and the empty log
  stays empty.
\<close>

theorem retention_keeps_last_stamp_witness:
  "tm_stamps (TopicMonitor_run (topicCB 3 (topicCB 2 (topicCB 1
      (TopicMonitor float_members ''imu'' ''/imu/data'' 10 False 10 True))))) = [3]
   \<and> tm_stamps (TopicMonitor_run
        (TopicMonitor float_members ''imu'' ''/imu/data'' 10 False 10 True)) = []"
  using retention_keeps_last_stamp [of "topicCB 3 (topicCB 2 (topicCB 1
      (TopicMonitor float_members ''imu'' ''/imu/data'' 10 False 10 True)))"]
    retention_keeps_last_stamp [of "TopicMonitor float_members ''imu'' ''/imu/data'' 10 False 10 True"]
  by (simp add: topicCB_def TopicMonitor_def)

text \<open>
  C2, as the code has it: with at least two stamps, an evaluation in strict mode sets the
  verdict to healthy exactly when every gap between adjacent stamps, as the code computes
  it (the \<open>double\<close> of \<open>toSec()\<close> narrowed to \<open>float\<close>), is at most \<open>min_time_\<close>, the
  quotient \<open>1 / min_freq_\<close> as the constructor rounded and stored it; one such gap above it
  gives unhealthy whatever the others are, and the scan that breaks at the first violation
  gives the verdict of the scan that examines all gaps. For a minimum frequency of 10 Hz
  and arrivals at 0.00, 0.05, 0.11 and 0.30 s, where the gaps are 0.05, 0.06 and 0.19 s
  and the minimum interval is 0.1 s, the verdict is unhealthy.
\<close>

theorem strict_mode_verdict:
  assumes "configured h m" and "2 \<le> length (tm_stamps m)" and "\<not> tm_use_average m"
  shows "(tm_status (TopicMonitor_run m) =
            (\<forall>g \<in> set (gaps (tm_stamps m)).
               g \<le> store (min_time_type h) (store (min_freq_type h) (1 / tm_min_freq m))))
       \<and> ((\<exists>g \<in> set (gaps (tm_stamps m)).
               g > store (min_time_type h) (store (min_freq_type h) (1 / tm_min_freq m))) \<longrightarrow>
            tm_status (TopicMonitor_run m) = False)
       \<and> tm_status (TopicMonitor_run m) =
            examine_all_gaps (store (min_time_type h) (store (min_freq_type h) (1 / tm_min_freq m)))
              (tm_stamps m)
       \<and> gap_seconds 0 50000000 = 0.05 \<and> gap_seconds 50000000 110000000 = 0.06
       \<and> gap_seconds 110000000 300000000 = 0.19 \<and> (1 :: real) / 10 = 0.1
       \<and> tm_status (monitor_exec
              [Arrival 0, Arrival 50000000, Arrival 110000000, Arrival 300000000, Evaluation]
              (TopicMonitor h' name topic_name 10 False rate s0)) = False"
proof -
  let ?mt = "store (min_time_type h) (store (min_freq_type h) (1 / tm_min_freq m))"
  have mt: "tm_min_time m = ?mt"
    using assms(1) by (simp add: configured_def)
  have general: "tm_status (TopicMonitor_run m) = (\<forall>g \<in> set (gaps (tm_stamps m)). g \<le> ?mt)"
    using run_check_strict [OF assms(2,3)] by (simp add: run_status mt)
  have violated: "(\<exists>g \<in> set (gaps (tm_stamps m)). g > ?mt) \<longrightarrow>
            tm_status (TopicMonitor_run m) = False"
    using general by (auto simp: not_le)
  have all_gaps: "tm_status (TopicMonitor_run m) = examine_all_gaps ?mt (tm_stamps m)"
    using general by (simp add: examine_all_gaps_iff)
  have g: "gap_seconds 0 50000000 = 0.05" "gap_seconds 50000000 110000000 = 0.06"
    "gap_seconds 110000000 300000000 = 0.19" "(1 :: real) / 10 = 0.1"
    by (simp_all add: gap_seconds_def)
  let ?m0 = "TopicMonitor h' name topic_name 10 False rate s0"
  let ?l = "topicCB 300000000 (topicCB 110000000 (topicCB 50000000 (topicCB 0 ?m0)))"
  have st: "tm_stamps ?l = [0, 50000000, 110000000, 300000000]"
    by (simp add: topicCB_def TopicMonitor_def)
  have t: "tm_min_time ?l = tm_min_time ?m0"
    by (simp add: topicCB_def)
  have mem: "elapsed 110000000 300000000 \<in> set (gaps (tm_stamps ?l))"
    by (simp only: st gaps_four) simp
  have over: "\<not> elapsed 110000000 300000000 \<le> tm_min_time ?l"
    using elapsed_190ms min_time_10(2) [of h' name topic_name False rate s0]
    unfolding t by linarith
  have len: "2 \<le> length (tm_stamps ?l)"
    by (simp only: st) simp
  have strict: "\<not> tm_use_average ?l"
    by (simp add: topicCB_def TopicMonitor_def)
  have "tm_status (TopicMonitor_run ?l) = False"
    using run_check_strict [OF len strict] mem over
    by (simp only: run_status) blast
  then have scenario: "tm_status (monitor_exec
        [Arrival 0, Arrival 50000000, Arrival 110000000, Arrival 300000000, Evaluation] ?m0) = False"
    by (simp add: monitor_exec_def)
  show ?thesis
    using general violated all_gaps g scenario by blast
qed

text \<open>
  The scenario with \<open>float\<close> members, and the same monitor evaluated before its last
  arrival, where it is healthy.
\<close>

theorem strict_mode_verdict_witness:
  "configured float_members
     (monitor_exec [Arrival 0, Arrival 50000000, Arrival 110000000, Arrival 300000000]
       (TopicMonitor float_members ''lidar'' ''/scan'' 10 False 10 True))
   \<and> 2 \<le> length (tm_stamps
       (monitor_exec [Arrival 0, Arrival 50000000, Arrival 110000000, Arrival 300000000]
         (TopicMonitor float_members ''lidar'' ''/scan'' 10 False 10 True)))
   \<and> \<not> tm_use_average
       (monitor_exec [Arrival 0, Arrival 50000000, Arrival 110000000, Arrival 300000000]
         (TopicMonitor float_members ''lidar'' ''/scan'' 10 False 10 True))
   \<and> tm_status (TopicMonitor_run
       (monitor_exec [Arrival 0, Arrival 50000000, Arrival 110000000, Arrival 300000000]
         (TopicMonitor float_members ''lidar'' ''/scan'' 10 False 10 True))) = False
   \<and> configured float_members
       (monitor_exec [Arrival 0, Arrival 50000000, Arrival 110000000]
         (TopicMonitor float_members ''lidar'' ''/scan'' 10 False 10 True))
   \<and> 2 \<le> length (tm_stamps
       (monitor_exec [Arrival 0, Arrival 50000000, Arrival 110000000]
         (TopicMonitor float_members ''lidar'' ''/scan'' 10 False 10 True)))
   \<and> \<not> tm_use_average
       (monitor_exec [Arrival 0, Arrival 50000000, Arrival 110000000]
         (TopicMonitor float_members ''lidar'' ''/scan'' 10 False 10 True))
   \<and> tm_status (TopicMonitor_run
       (monitor_exec [Arrival 0, Arrival 50000000, Arrival 110000000]
         (TopicMonitor float_members ''lidar'' ''/scan'' 10 False 10 True))) = True"
proof -
  let ?m0 = "TopicMonitor float_members ''lidar'' ''/scan'' 10 False 10 True"
  let ?L = "monitor_exec [Arrival 0, Arrival 50000000, Arrival 110000000, Arrival 300000000] ?m0"
  let ?H = "monitor_exec [Arrival 0, Arrival 50000000, Arrival 110000000] ?m0"
  let ?mt = "store (min_time_type float_members) (store (min_freq_type float_members) (1 / 10))"
  have stL: "tm_stamps ?L = [0, 50000000, 110000000, 300000000]"
    by (simp add: monitor_exec_def topicCB_def TopicMonitor_def)
  have stH: "tm_stamps ?H = [0, 50000000, 110000000]"
    by (simp add: monitor_exec_def topicCB_def TopicMonitor_def)
  have fL: "tm_min_freq ?L = 10" and aL: "\<not> tm_use_average ?L"
    by (simp_all add: monitor_exec_def topicCB_def TopicMonitor_def)
  have fH: "tm_min_freq ?H = 10" and aH: "\<not> tm_use_average ?H"
    by (simp_all add: monitor_exec_def topicCB_def TopicMonitor_def)
  have cL: "configured float_members ?L" and cH: "configured float_members ?H"
    by (simp_all add: configured_monitor_exec configured_TopicMonitor)
  have lL: "2 \<le> length (tm_stamps ?L)" by (simp only: stL) simp
  have lH: "2 \<le> length (tm_stamps ?H)" by (simp only: stH) simp
  have mt: "1 / 16 \<le> ?mt" "?mt \<le> 1 / 8"
    using min_time_10 [of float_members "''lidar''" "''/scan''" False 10 True]
    by (simp_all add: TopicMonitor_def)
  have "elapsed 110000000 300000000 \<in> set (gaps (tm_stamps ?L))"
    by (simp only: stL gaps_four) simp
  moreover have "elapsed 110000000 300000000 > ?mt"
    using elapsed_190ms mt(2) by linarith
  ultimately have vL: "tm_status (TopicMonitor_run ?L) = False"
    using strict_mode_verdict [OF cL lL aL] unfolding fL by blast
  have "elapsed 0 50000000 \<le> ?mt" "elapsed 50000000 110000000 \<le> ?mt"
    using elapsed_50ms elapsed_60ms mt(1) by linarith+
  then have "\<forall>g \<in> set (gaps (tm_stamps ?H)). g \<le> ?mt"
    by (simp only: stH gaps_three) simp
  then have vH: "tm_status (TopicMonitor_run ?H) = True"
    using strict_mode_verdict [OF cH lH aH] unfolding fH by blast
  show ?thesis
    using cL lL aL vL cH lH aH vH by blast
qed

text \<open>
  The claim as the specification states it, with the gaps and the minimum interval as
  exact numbers, fails: at 8 Hz the minimum interval is 0.125 s; two stamps 0.125000001 s
  apart have a gap above it, and the evaluation finds the monitor healthy, whichever type
  the members have, because the \<open>float\<close> nearest to that gap is 0.125.
\<close>

theorem strict_mode_exact_counterexample:
  "gap_seconds 0 125000001 > 1 / 8
   \<and> tm_status (TopicMonitor_run (monitor_exec [Arrival 0, Arrival 125000001]
        (TopicMonitor float_members ''lidar'' ''/scan'' 8 False 10 False))) = True
   \<and> tm_status (TopicMonitor_run (monitor_exec [Arrival 0, Arrival 125000001]
        (TopicMonitor double_members ''lidar'' ''/scan'' 8 False 10 False))) = True"
proof -
  have g: "gap_seconds 0 125000001 > 1 / 8"
    by (simp add: gap_seconds_def)
  have e: "elapsed 0 125000001 = 1 / 8"
    by (rule elapsed_eighth) simp_all
  have v: "tm_status (TopicMonitor_run (monitor_exec [Arrival 0, Arrival 125000001]
        (TopicMonitor h ''lidar'' ''/scan'' 8 False 10 False))) = True" for h
  proof -
    let ?m = "monitor_exec [Arrival 0, Arrival 125000001]
        (TopicMonitor h ''lidar'' ''/scan'' 8 False 10 False)"
    have st: "tm_stamps ?m = [0, 125000001]" and a: "\<not> tm_use_average ?m"
      by (simp_all add: monitor_exec_def topicCB_def TopicMonitor_def)
    have t: "tm_min_time ?m = 1 / 8"
      using min_time_8 [of h "''lidar''" "''/scan''" False 10 False]
      by (simp add: monitor_exec_def topicCB_def)
    have l: "2 \<le> length (tm_stamps ?m)" by (simp only: st) simp
    have "\<forall>g \<in> set (gaps (tm_stamps ?m)). g \<le> tm_min_time ?m"
      by (simp only: st gaps_two t e) simp
    then show ?thesis
      using run_check_strict [OF l a] by (simp only: run_status) simp
  qed
  show ?thesis using g v [of float_members] v [of double_members] by blast
qed

text \<open>
  C3, as the code has it: with at least two stamps, an evaluation in averaging mode sets
  the verdict to healthy exactly when the average it computes is at most \<open>min_time_\<close>,
  the stored quotient \<open>1 / min_freq_\<close>. The average is the \<open>float\<close> quotient of the sum of
  all gaps by the number of stamps (one more than the number of gaps), where every gap is
  narrowed to \<open>float\<close> and the sum is accumulated in \<open>float\<close>, in the order of the log.
\<close>

theorem averaging_mode_verdict:
  assumes "configured h m" and "2 \<le> length (tm_stamps m)" and "tm_use_average m"
  shows "tm_status (TopicMonitor_run m) =
           (to_float (float_sum (gaps (tm_stamps m)) / to_float (real (length (tm_stamps m))))
              \<le> store (min_time_type h) (store (min_freq_type h) (1 / tm_min_freq m)))
       \<and> length (tm_stamps m) = length (gaps (tm_stamps m)) + 1"
proof -
  have mt: "tm_min_time m = store (min_time_type h) (store (min_freq_type h) (1 / tm_min_freq m))"
    using assms(1) by (simp add: configured_def)
  have "tm_status (TopicMonitor_run m) =
           (to_float (float_sum (gaps (tm_stamps m)) / to_float (real (length (tm_stamps m))))
              \<le> store (min_time_type h) (store (min_freq_type h) (1 / tm_min_freq m)))"
    using run_check_average [OF assms(2,3)] by (simp add: run_status mt)
  moreover have "length (tm_stamps m) = length (gaps (tm_stamps m)) + 1"
    using assms(2) by (simp add: length_gaps)
  ultimately show ?thesis by blast
qed

text \<open>
  Two stamps 0.25 s apart at 8 Hz: the sum 0.25 divided by the two stamps is 0.125 s and
  the monitor is healthy, although the one gap is above the minimum interval of 0.125 s.
\<close>

theorem averaging_mode_verdict_witness:
  "configured float_members
     (monitor_exec [Arrival 0, Arrival 250000000]
        (TopicMonitor float_members ''gps'' ''/fix'' 8 True 10 False))
   \<and> 2 \<le> length (tm_stamps (monitor_exec [Arrival 0, Arrival 250000000]
            (TopicMonitor float_members ''gps'' ''/fix'' 8 True 10 False)))
   \<and> tm_use_average (monitor_exec [Arrival 0, Arrival 250000000]
            (TopicMonitor float_members ''gps'' ''/fix'' 8 True 10 False))
   \<and> tm_status (TopicMonitor_run (monitor_exec [Arrival 0, Arrival 250000000]
            (TopicMonitor float_members ''gps'' ''/fix'' 8 True 10 False))) = True
   \<and> gaps [0, 250000000] = [1 / 4]"
proof -
  let ?G = "monitor_exec [Arrival 0, Arrival 250000000]
              (TopicMonitor float_members ''gps'' ''/fix'' 8 True 10 False)"
  have st: "tm_stamps ?G = [0, 250000000]"
    by (simp add: monitor_exec_def topicCB_def TopicMonitor_def)
  have f: "tm_min_freq ?G = 8" and a: "tm_use_average ?G"
    by (simp_all add: monitor_exec_def topicCB_def TopicMonitor_def)
  have c: "configured float_members ?G"
    by (simp add: configured_monitor_exec configured_TopicMonitor)
  have l: "2 \<le> length (tm_stamps ?G)" by (simp only: st) simp
  have e: "elapsed 0 250000000 = 1 / 4"
    by (rule elapsed_quarter) simp_all
  have g: "gaps [0, 250000000] = [1 / 4]"
    by (simp only: gaps_two e)
  have s: "float_sum [1 / 4] = 1 / 4"
    using to_float_fix [of 1 "- 2"] by (simp add: float_sum_def)
  have n: "to_float (real (length [0, 250000000 :: int])) = 2"
    using to_float_nat [of 2] by simp
  have q: "to_float (1 / 4 / 2) = 1 / 8"
    using to_float_fix [of 1 "- 3"] by simp
  have "to_float (float_sum (gaps (tm_stamps ?G)) / to_float (real (length (tm_stamps ?G))))
          \<le> store (min_time_type float_members) (store (min_freq_type float_members) (1 / tm_min_freq ?G))"
    by (simp only: st g s n q f store_eighth)
  then have v: "tm_status (TopicMonitor_run ?G) = True"
    using averaging_mode_verdict [OF c l a] by blast
  show ?thesis using c l a v g by blast
qed

text \<open>
  The claim as the specification states it, with an exact sum and an exact quotient,
  fails: at 8 Hz, for stamps at 0, 0.125 and 0.375000002 s the sum of the gaps divided by
  the three stamps is above the minimum interval of 0.125 s, and the evaluation finds the
  monitor healthy, whichever type the members have: the second gap becomes the \<open>float\<close>
  0.25 and the average the \<open>float\<close> 0.125.
\<close>

theorem averaging_mode_exact_counterexample:
  "(gap_seconds 0 125000000 + gap_seconds 125000000 375000002) / 3 > 1 / 8
   \<and> tm_status (TopicMonitor_run (monitor_exec [Arrival 0, Arrival 125000000, Arrival 375000002]
        (TopicMonitor float_members ''gps'' ''/fix'' 8 True 10 False))) = True
   \<and> tm_status (TopicMonitor_run (monitor_exec [Arrival 0, Arrival 125000000, Arrival 375000002]
        (TopicMonitor double_members ''gps'' ''/fix'' 8 True 10 False))) = True"
proof -
  have g: "(gap_seconds 0 125000000 + gap_seconds 125000000 375000002) / 3 > 1 / 8"
    by (simp add: gap_seconds_def)
  have e1: "elapsed 0 125000000 = 1 / 8"
    by (rule elapsed_eighth) simp_all
  have e2: "elapsed 125000000 375000002 = 1 / 4"
    by (rule elapsed_quarter) simp_all
  have s1: "to_float (1 / 8) = 1 / 8"
    using to_float_fix [of 1 "- 3"] by simp
  have s2: "to_float (3 / 8) = 3 / 8"
    using to_float_fix [of 3 "- 3"] by simp
  have s: "float_sum [1 / 8, 1 / 4] = 3 / 8"
    by (simp add: float_sum_def s1 s2)
  have n: "to_float (real (length [0, 125000000, 375000002 :: int])) = 3"
    using to_float_nat [of 3] by simp
  have q: "to_float (3 / 8 / 3) = 1 / 8"
    using to_float_fix [of 1 "- 3"] by simp
  have v: "tm_status (TopicMonitor_run (monitor_exec [Arrival 0, Arrival 125000000, Arrival 375000002]
        (TopicMonitor h ''gps'' ''/fix'' 8 True 10 False))) = True" for h
  proof -
    let ?m = "monitor_exec [Arrival 0, Arrival 125000000, Arrival 375000002]
        (TopicMonitor h ''gps'' ''/fix'' 8 True 10 False)"
    have st: "tm_stamps ?m = [0, 125000000, 375000002]" and a: "tm_use_average ?m"
      by (simp_all add: monitor_exec_def topicCB_def TopicMonitor_def)
    have t: "tm_min_time ?m = 1 / 8"
      using min_time_8 [of h "''gps''" "''/fix''" True 10 False]
      by (simp add: monitor_exec_def topicCB_def)
    have l: "2 \<le> length (tm_stamps ?m)" by (simp only: st) simp
    have "to_float (float_sum (gaps (tm_stamps ?m)) / to_float (real (length (tm_stamps ?m))))
            \<le> tm_min_time ?m"
      by (simp only: st gaps_three e1 e2 s n q t)
    then show ?thesis
      using run_check_average [OF l a] by (simp add: run_status)
  qed
  show ?thesis using g v [of float_members] v [of double_members] by blast
qed

text \<open>
  The accumulation of line 177. A sum of gaps none of which is positive is not positive;
  a sum of \<open>k\<close> gaps each at most \<open>b\<close>, a normal \<open>float\<close> magnitude, exceeds \<open>k * b\<close> by at
  most the \<open>k\<close> roundings.
\<close>

lemma float_sum_snoc: "float_sum (gs @ [g]) = to_float (float_sum gs + g)"
  by (simp add: float_sum_def)

lemma float_sum_nonpos:
  "(\<forall>g \<in> set gs. g \<le> 0) \<Longrightarrow> float_sum gs \<le> 0"
proof (induction gs rule: rev_induct)
  case Nil
  show ?case by (simp add: float_sum_def)
next
  case (snoc g gs)
  then have "float_sum gs + g \<le> 0" by simp
  then have "to_float (float_sum gs + g) \<le> to_float 0" by (rule to_float_mono)
  then show ?case by (simp add: float_sum_snoc to_float_0)
qed

lemma to_float_error_upper:
  assumes "2 powi (- 126) \<le> x"
  shows "to_float x \<le> x * (1 + 2 powi (- 24))"
proof -
  define v where "v = (2::real) powi (- 24)"
  have "\<bar>fround 24 (- 126) x - x\<bar> \<le> x * 2 powi (- int 24)"
    using assms by (intro fround_error) simp_all
  then have "\<bar>to_float x - x\<bar> \<le> x * v"
    by (simp only: to_float_def v_def) simp
  then have "to_float x \<le> x + x * v"
    by linarith
  also have "\<dots> = x * (1 + v)"
    by (simp add: algebra_simps)
  finally show ?thesis by (simp only: v_def)
qed

lemma float_sum_bound:
  assumes "2 powi (- 126) \<le> b" "\<forall>g \<in> set gs. g \<le> b"
  shows "float_sum gs \<le> real (length gs) * b * (1 + 2 powi (- 24)) ^ length gs"
  using assms(2)
proof (induction gs rule: rev_induct)
  case Nil
  show ?case by (simp add: float_sum_def)
next
  case (snoc g gs)
  let ?u = "1 + (2::real) powi (- 24)"
  let ?k = "length gs"
  have b0: "0 < b"
  proof -
    have "(0::real) < 2 powi (- 126)" by simp
    then show ?thesis using assms(1) by linarith
  qed
  have u1: "1 \<le> ?u" by simp
  then have uk: "1 \<le> ?u ^ ?k" by (rule one_le_power)
  have ih: "float_sum gs \<le> real ?k * b * ?u ^ ?k"
    using snoc by simp
  have g: "g \<le> b" using snoc.prems by simp
  have "b \<le> b * ?u ^ ?k"
    using b0 uk by (simp add: mult_le_cancel_left1)
  then have "float_sum gs + g \<le> real ?k * b * ?u ^ ?k + b * ?u ^ ?k"
    using ih g by linarith
  also have "\<dots> = real (?k + 1) * b * ?u ^ ?k"
    by (simp add: algebra_simps)
  finally have le: "float_sum gs + g \<le> real (?k + 1) * b * ?u ^ ?k" .
  have "b * 1 \<le> real (?k + 1) * b * ?u ^ ?k"
  proof -
    have "b * 1 \<le> b * ?u ^ ?k" using b0 uk by (simp add: mult_le_cancel_left1)
    also have "\<dots> = 1 * (b * ?u ^ ?k)" by simp
    also have "\<dots> \<le> real (?k + 1) * (b * ?u ^ ?k)"
      using b0 by (intro mult_right_mono) simp_all
    finally show ?thesis by (simp add: mult.assoc)
  qed
  then have normal: "2 powi (- 126) \<le> real (?k + 1) * b * ?u ^ ?k"
    using assms(1) by linarith
  have "to_float (float_sum gs + g) \<le> to_float (real (?k + 1) * b * ?u ^ ?k)"
    using le by (rule to_float_mono)
  also have "\<dots> \<le> real (?k + 1) * b * ?u ^ ?k * ?u"
    using normal by (rule to_float_error_upper)
  also have "\<dots> = real (length (gs @ [g])) * b * ?u ^ length (gs @ [g])"
    by simp
  finally show ?case by (simp only: float_sum_snoc)
qed

text \<open>Up to 4096 stamps the roundings cannot make up for the one stamp more than gaps.\<close>

lemma rounding_margin:
  assumes "1 \<le> k" "k + 1 \<le> 4096"
  shows "real k * (1 + 2 powi (- 24)) ^ (k + 1) \<le> real (k + 1)"
proof -
  define v where "v = (2::real) powi (- 24)"
  define n where "n = k + 1"
  have v: "0 \<le> v" "v \<le> 1" "4096 * 4096 * v = 1" by (simp_all add: v_def)
  have bern: "1 + real n * (- v) \<le> (1 + (- v)) ^ n"
    using v(2) by (intro Bernoulli_inequality) simp
  have pos: "0 \<le> (1 + v) ^ n" using v(1) by simp
  have "0 \<le> v * v" using v(1) by simp
  then have sq: "0 \<le> (1 + v) * (1 - v)" "(1 + v) * (1 - v) \<le> 1"
    using v(1,2) by (simp_all add: algebra_simps mult_le_one)
  have "(1 + v) ^ n * (1 - real n * v) \<le> (1 + v) ^ n * (1 - v) ^ n"
    using bern pos by (intro mult_left_mono) simp_all
  also have "\<dots> = ((1 + v) * (1 - v)) ^ n"
    by (simp only: power_mult_distrib)
  also have "\<dots> \<le> 1"
    using sq by (rule power_le_one)
  finally have a: "(1 + v) ^ n * (1 - real n * v) \<le> 1" .
  have "real n * real n \<le> 4096 * 4096"
    using assms(2) by (intro mult_mono) (simp_all add: n_def)
  then have "real n * real n * v \<le> 4096 * 4096 * v"
    using v(1) by (rule mult_right_mono)
  then have "real n * real n * v \<le> 1"
    by (simp only: v(3))
  moreover have "real n = real k + 1" by (simp add: n_def)
  ultimately have b: "real k \<le> real n * (1 - real n * v)"
    by (simp add: algebra_simps)
  have "real k * (1 + v) ^ n \<le> real n * (1 - real n * v) * (1 + v) ^ n"
    using b pos by (intro mult_right_mono)
  also have "\<dots> = real n * ((1 + v) ^ n * (1 - real n * v))"
    by (simp only: mult_ac)
  also have "\<dots> \<le> real n * 1"
    using a by (intro mult_left_mono) simp_all
  finally show ?thesis by (simp add: v_def n_def)
qed

lemma gaps_are_elapsed: "g \<in> set (gaps ts) \<Longrightarrow> \<exists>a b. g = elapsed a b"
  by (auto simp: gaps_def)

lemma store_pos:
  assumes "2 powi (- 128) \<le> x"
  shows "2 powi (- 128) \<le> store t x"
proof -
  have "store t (2 powi (- 128)) \<le> store t x" using assms by (rule store_mono)
  moreover have "store t (of_int 1 * 2 powi (- 128)) = of_int 1 * 2 powi (- 128)"
    by (rule store_fix) simp_all
  ultimately show ?thesis by simp
qed

lemma min_time_positive:
  assumes "configured h m" "0 < tm_min_freq m" "tm_min_freq m \<le> 2 ^ 128"
  shows "0 < tm_min_time m"
proof -
  have "1 / 2 ^ 128 \<le> 1 / tm_min_freq m"
    using assms(2,3) by (simp add: frac_le)
  then have "2 powi (- 128) \<le> 1 / tm_min_freq m"
    by (simp add: power_int_minus_divide)
  then have "2 powi (- 128) \<le> store (min_freq_type h) (1 / tm_min_freq m)"
    by (rule store_pos)
  then have "2 powi (- 128) \<le> store (min_time_type h) (store (min_freq_type h) (1 / tm_min_freq m))"
    by (rule store_pos)
  moreover have "(0::real) < 2 powi (- 128)" by simp
  ultimately show ?thesis
    using assms(1) by (simp add: configured_def)
qed

lemma average_below_threshold:
  assumes "0 < b" "2 \<le> length ts" "length ts \<le> 4096" "\<forall>g \<in> set (gaps ts). g \<le> b"
  shows "to_float (float_sum (gaps ts) / to_float (real (length ts))) \<le> b"
proof -
  define n where "n = length ts"
  define k where "k = length ts - 1"
  define u where "u = 1 + (2::real) powi (- 24)"
  define S where "S = float_sum (gaps ts)"
  have tn: "to_float (real n) = real n"
    using assms(3) by (intro to_float_nat) (simp add: n_def)
  have n0: "0 < real n" using assms(2) unfolding n_def by (cases ts) simp_all
  have k: "length (gaps ts) = k" "1 \<le> k" "k + 1 = n" "k + 1 \<le> 4096"
    using assms(2,3) by (simp_all add: length_gaps k_def n_def)
  have rn: "real n = real k + 1" using k(3) by linarith
  have goal: "to_float (S / real n) \<le> b"
  proof (cases "b < 2 powi (- 30)")
    case True
    have "\<forall>g \<in> set (gaps ts). g \<le> 0"
    proof
      fix g assume g: "g \<in> set (gaps ts)"
      then obtain x y where e: "g = elapsed x y" using gaps_are_elapsed by blast
      have "g \<le> b" using g assms(4) by simp
      then have "elapsed x y < 2 powi (- 30)" using True e by simp
      then show "g \<le> 0" unfolding e by (rule elapsed_small_nonpos)
    qed
    then have "S \<le> 0" unfolding S_def by (rule float_sum_nonpos)
    then have "S / real n \<le> 0"
      using n0 by (simp add: divide_le_0_iff)
    then have "to_float (S / real n) \<le> to_float 0"
      by (rule to_float_mono)
    then show ?thesis using assms(1) by (simp add: to_float_0)
  next
    case False
    then have b30: "2 powi (- 30) \<le> b" by simp
    have "(2::real) powi (- 126) \<le> 2 powi (- 30)" by simp
    then have b126: "2 powi (- 126) \<le> b" using b30 by linarith
    have u1: "1 \<le> u" by (simp add: u_def)
    then have uk: "1 \<le> u ^ k" by (rule one_le_power)
    have s: "S \<le> real k * b * u ^ k"
      using float_sum_bound [OF b126 assms(4)] by (simp only: k(1) S_def u_def)
    define d where "d = real k * b * u ^ k / real n"
    have "S / real n \<le> d"
      unfolding d_def using s n0 by (intro divide_right_mono) simp_all
    then have r1: "to_float (S / real n) \<le> to_float d"
      by (rule to_float_mono)
    have "real n \<le> 2 * real k" using k(2) rn by linarith
    then have half: "1 / 2 \<le> real k / real n"
      using n0 by (simp add: field_simps)
    have "b * (1 / 2) * 1 \<le> b * (real k / real n) * u ^ k"
      using half uk assms(1) by (intro mult_mono) simp_all
    also have "\<dots> = d" by (simp add: d_def)
    finally have "b / 2 \<le> d" by simp
    moreover have "(2::real) powi (- 126) \<le> 2 powi (- 30) / 2" by simp
    ultimately have "2 powi (- 126) \<le> d" using b30 by linarith
    then have "to_float d \<le> d * u" unfolding u_def by (rule to_float_error_upper)
    also have "\<dots> = b * (real k * u ^ (k + 1)) / real n"
      by (simp add: d_def mult_ac)
    also have "\<dots> \<le> b * real (k + 1) / real n"
    proof -
      have "real k * u ^ (k + 1) \<le> real (k + 1)"
        unfolding u_def using k(2,4) by (rule rounding_margin)
      then have "b * (real k * u ^ (k + 1)) \<le> b * real (k + 1)"
        using assms(1) by (intro mult_left_mono) simp_all
      then show ?thesis using n0 by (intro divide_right_mono) simp_all
    qed
    also have "\<dots> = b"
      using n0 by (simp only: k(3)) simp
    finally show ?thesis using r1 by linarith
  qed
  then show ?thesis by (simp only: S_def tn n_def [symmetric]) 
qed

text \<open>
  A long log. Adding the same gap \<open>g\<close> again and again to a \<open>float\<close> sum advances the sum
  by a fixed multiple of its spacing as long as it stays in one binade; the multiple is
  \<open>g\<close> rounded to the spacing, not \<open>g\<close>.
\<close>

lemma round_even_tie:
  assumes "even n"
  shows "round_even (of_int n + 1 / 2) = n"
proof -
  have "of_int n \<le> (of_int n + 1 / 2 :: real)" "(of_int n + 1 / 2 :: real) < of_int n + 1"
    by simp_all
  then have "\<lfloor>of_int n + 1 / 2 :: real\<rfloor> = n" by (rule floor_unique)
  then show ?thesis using assms by (simp add: round_even_def Let_def)
qed

lemma accumulate_extend:
  assumes "foldl f s0 (replicate i g) = s" "foldl f s (replicate j g) = s'" "i + j = n"
  shows "foldl f s0 (replicate n g) = s'"
proof -
  have "foldl f s0 (replicate (i + j) g) = foldl f (foldl f s0 (replicate i g)) (replicate j g)"
    by (simp only: replicate_add foldl_append)
  then show ?thesis by (simp only: assms)
qed

lemma accumulate_segment:
  assumes "\<bar>g / 2 powi e - of_int c\<bar> < 1 / 2" "1 \<le> c" "2 ^ 23 \<le> a"
    and "a + int j * c < 2 ^ 24" "- 149 \<le> e"
  shows "foldl (\<lambda>s g. to_float (s + g)) (of_int a * 2 powi e) (replicate j g) =
           of_int (a + int j * c) * 2 powi e"
  using assms(3,4)
proof (induction j arbitrary: a)
  case 0
  show ?case by simp
next
  case (Suc j)
  have pe: "(0::real) < 2 powi e" by simp
  have cj: "0 \<le> int j * c" using assms(2) by simp
  have sj: "int (Suc j) * c = c + int j * c" by (simp add: algebra_simps)
  have ac: "a + c < 2 ^ 24" "2 ^ 23 \<le> a + c" "a + c + int j * c < 2 ^ 24"
    using Suc.prems assms(2) cj unfolding sj by linarith+
  let ?x = "of_int a * 2 powi e + g"
  have q: "?x / 2 powi e = of_int a + g / 2 powi e"
    by (simp add: add_divide_distrib)
  have lo: "of_int c - 1 / 2 < g / 2 powi e" and hi: "g / 2 powi e < of_int c + 1 / 2"
    using assms(1) by linarith+
  have c1: "(1::real) \<le> of_int c" using assms(2) by simp
  have "0 < g / 2 powi e" using lo c1 by linarith
  then have g0: "0 < g" using pe by (simp add: zero_less_divide_iff)
  have "(of_int (2 ^ 23) :: real) \<le> of_int a"
    using Suc.prems(1) by (simp only: of_int_le_iff)
  then have "(2::real) ^ 23 \<le> of_int a"
    by simp
  then have "2 ^ 23 * 2 powi e \<le> of_int a * (2::real) powi e"
    using pe by (intro mult_right_mono) simp_all
  moreover have "(2::real) powi (e + 23) = 2 ^ 23 * 2 powi e"
    by (simp add: power_int_add)
  ultimately have lx: "2 powi (e + 23) \<le> ?x"
    using g0 by linarith
  have "(0::real) < 2 powi (e + 23)" by simp
  then have xpos: "0 < ?x" using lx by linarith
  have l: "2 powi (e + 23) \<le> \<bar>?x\<bar>"
    using lx xpos by simp
  have "a + c + 1 \<le> 2 ^ 24" using ac(1) by simp
  then have "(of_int (a + c + 1) :: real) \<le> of_int (2 ^ 24)"
    by (simp only: of_int_le_iff)
  then have "of_int (a + c) + (1::real) \<le> 2 ^ 24"
    by simp
  then have "?x / 2 powi e < 2 ^ 24"
    unfolding q using hi by simp
  then have "?x < 2 ^ 24 * 2 powi e"
    using pe by (simp only: pos_divide_less_eq)
  moreover have "(2::real) powi (e + 23 + 1) = 2 ^ 24 * 2 powi e"
    by (simp add: power_int_add)
  ultimately have u: "\<bar>?x\<bar> < 2 powi (e + 23 + 1)"
    using xpos by simp
  have m: "max (e + 23) (- 126) - int 24 + 1 = e"
    using assms(5) by simp
  have "\<bar>?x / 2 powi (max (e + 23) (- 126) - int 24 + 1) - of_int (a + c)\<bar> < 1 / 2"
    unfolding m q using assms(1) by simp
  then have "fround 24 (- 126) ?x = of_int (a + c) * 2 powi (max (e + 23) (- 126) - int 24 + 1)"
    using l u by (intro fround_eval)
  then have step: "to_float ?x = of_int (a + c) * 2 powi e"
    unfolding m by (simp add: to_float_def)
  have "foldl (\<lambda>s g. to_float (s + g)) (of_int a * 2 powi e) (replicate (Suc j) g) =
        foldl (\<lambda>s g. to_float (s + g)) (of_int (a + c) * 2 powi e) (replicate j g)"
    by (simp add: step)
  also have "\<dots> = of_int (a + c + int j * c) * 2 powi e"
    using ac(2,3) by (rule Suc.IH)
  also have "a + c + int j * c = a + int (Suc j) * c"
    by (simp add: algebra_simps)
  finally show ?case .
qed

lemma accumulate_step:
  assumes "to_float (s + g) = s'"
  shows "foldl (\<lambda>s g. to_float (s + g)) s (replicate 1 g) = s'"
  using assms by simp

lemma monitor_exec_arrivals:
  "monitor_exec (map Arrival ss) m = m\<lparr>tm_stamps := tm_stamps m @ ss\<rparr>"
  unfolding monitor_exec_def
proof (induction ss arbitrary: m)
  case Nil
  show ?case by simp
next
  case (Cons s ss)
  show ?case by (simp add: Cons.IH topicCB_def)
qed

lemma elapsed_shift: "elapsed a b = elapsed 0 (b - a)"
  by (simp add: elapsed_def)

lemma gaps_regular:
  "gaps (map (\<lambda>i. int i * d) [0 ..< n]) = replicate (n - 1) (elapsed 0 d)"
proof -
  have "elapsed (map (\<lambda>i. int i * d) [0 ..< n] ! i) (map (\<lambda>i. int i * d) [0 ..< n] ! (i + 1))
          = elapsed 0 d" if "i < n - 1" for i
  proof -
    have "i < n" "i + 1 < n" using that by linarith+
    then have "map (\<lambda>i. int i * d) [0 ..< n] ! i = int i * d"
         "map (\<lambda>i. int i * d) [0 ..< n] ! (i + 1) = int (i + 1) * d"
      by simp_all
    then show ?thesis
      using elapsed_shift [of "int i * d" "int (i + 1) * d"] by (simp add: algebra_simps)
  qed
  then have "gaps (map (\<lambda>i. int i * d) [0 ..< n]) = map (\<lambda>i. elapsed 0 d) [0 ..< n - 1]"
    by (simp add: gaps_def)
  then show ?thesis by (simp add: map_replicate_const)
qed

lemma fround_eval_tie:
  assumes "2 powi k \<le> \<bar>x\<bar>" "\<bar>x\<bar> < 2 powi (k + 1)"
    and "x / 2 powi (max k emin - int p + 1) = of_int n + 1 / 2" "even n"
  shows "fround p emin x = of_int n * 2 powi (max k emin - int p + 1)"
  using fround_eq [OF assms(1,2), of p emin] round_even_tie [OF assms(4)]
  by (simp only: assms(3))

text \<open>
  The sum of 11460 gaps of one millisecond, as the \<open>float\<close> accumulator computes it:
  \<open>12017731 / 2^20\<close>, about 11.461 s and above the exact total of 11.46 s.
\<close>

lemma float_sum_long:
  "float_sum (replicate 11460 (of_int 8589935 * 2 powi (- 33))) = of_int 12017731 * 2 powi (- 20)"
proof -
  have p1: "foldl (\<lambda>s g. to_float (s + g)) 0 (replicate 1 (of_int 8589935 * 2 powi (- 33))) = of_int 8589935 * 2 powi (- 33)"
    using to_float_fix [of 8589935 "- 33"] by simp
  have q1: "foldl (\<lambda>s g. to_float (s + g)) (of_int 8589935 * 2 powi (- 33)) (replicate 1 (of_int 8589935 * 2 powi (- 33))) = of_int 8589935 * 2 powi (- 32)"
  proof (rule accumulate_step)
    have "fround 24 (- 126) (of_int 8589935 * 2 powi (- 33) + of_int 8589935 * 2 powi (- 33)) = of_int 8589935 * 2 powi (max (- 9) (- 126) - int 24 + 1)"
      by (rule fround_eval) simp_all
    then show "to_float (of_int 8589935 * 2 powi (- 33) + of_int 8589935 * 2 powi (- 33)) = of_int 8589935 * 2 powi (- 32)"
      by (simp add: to_float_def)
  qed
  have p2: "foldl (\<lambda>s g. to_float (s + g)) 0 (replicate 2 (of_int 8589935 * 2 powi (- 33))) = of_int 8589935 * 2 powi (- 32)"
    by (rule accumulate_extend [OF p1 q1]) simp
  have q2: "foldl (\<lambda>s g. to_float (s + g)) (of_int 8589935 * 2 powi (- 32)) (replicate 1 (of_int 8589935 * 2 powi (- 33))) = of_int 12884902 * 2 powi (- 32)"
  proof (rule accumulate_step)
    have "fround 24 (- 126) (of_int 8589935 * 2 powi (- 32) + of_int 8589935 * 2 powi (- 33)) = of_int 12884902 * 2 powi (max (- 9) (- 126) - int 24 + 1)"
      by (rule fround_eval_tie) simp_all
    then show "to_float (of_int 8589935 * 2 powi (- 32) + of_int 8589935 * 2 powi (- 33)) = of_int 12884902 * 2 powi (- 32)"
      by (simp add: to_float_def)
  qed
  have p3: "foldl (\<lambda>s g. to_float (s + g)) 0 (replicate 3 (of_int 8589935 * 2 powi (- 33))) = of_int 12884902 * 2 powi (- 32)"
    by (rule accumulate_extend [OF p2 q2]) simp
  have q3: "foldl (\<lambda>s g. to_float (s + g)) (of_int 12884902 * 2 powi (- 32)) (replicate 1 (of_int 8589935 * 2 powi (- 33))) = of_int 8589935 * 2 powi (- 31)"
  proof (rule accumulate_step)
    have "fround 24 (- 126) (of_int 12884902 * 2 powi (- 32) + of_int 8589935 * 2 powi (- 33)) = of_int 8589935 * 2 powi (max (- 8) (- 126) - int 24 + 1)"
      by (rule fround_eval) simp_all
    then show "to_float (of_int 12884902 * 2 powi (- 32) + of_int 8589935 * 2 powi (- 33)) = of_int 8589935 * 2 powi (- 31)"
      by (simp add: to_float_def)
  qed
  have p4: "foldl (\<lambda>s g. to_float (s + g)) 0 (replicate 4 (of_int 8589935 * 2 powi (- 33))) = of_int 8589935 * 2 powi (- 31)"
    by (rule accumulate_extend [OF p3 q3]) simp
  have q4: "foldl (\<lambda>s g. to_float (s + g)) (of_int 8589935 * 2 powi (- 31)) (replicate 3 (of_int 8589935 * 2 powi (- 33))) = of_int (8589935 + int 3 * 2147484) * 2 powi (- 31)"
    by (rule accumulate_segment) simp_all
  have "foldl (\<lambda>s g. to_float (s + g)) 0 (replicate 7 (of_int 8589935 * 2 powi (- 33))) = of_int (8589935 + int 3 * 2147484) * 2 powi (- 31)"
    by (rule accumulate_extend [OF p4 q4]) simp
  then have p7: "foldl (\<lambda>s g. to_float (s + g)) 0 (replicate 7 (of_int 8589935 * 2 powi (- 33))) = of_int 15032387 * 2 powi (- 31)"
    by simp
  have q5: "foldl (\<lambda>s g. to_float (s + g)) (of_int 15032387 * 2 powi (- 31)) (replicate 1 (of_int 8589935 * 2 powi (- 33))) = of_int 8589935 * 2 powi (- 30)"
  proof (rule accumulate_step)
    have "fround 24 (- 126) (of_int 15032387 * 2 powi (- 31) + of_int 8589935 * 2 powi (- 33)) = of_int 8589935 * 2 powi (max (- 7) (- 126) - int 24 + 1)"
      by (rule fround_eval) simp_all
    then show "to_float (of_int 15032387 * 2 powi (- 31) + of_int 8589935 * 2 powi (- 33)) = of_int 8589935 * 2 powi (- 30)"
      by (simp add: to_float_def)
  qed
  have p8: "foldl (\<lambda>s g. to_float (s + g)) 0 (replicate 8 (of_int 8589935 * 2 powi (- 33))) = of_int 8589935 * 2 powi (- 30)"
    by (rule accumulate_extend [OF p7 q5]) simp
  have q6: "foldl (\<lambda>s g. to_float (s + g)) (of_int 8589935 * 2 powi (- 30)) (replicate 7 (of_int 8589935 * 2 powi (- 33))) = of_int (8589935 + int 7 * 1073742) * 2 powi (- 30)"
    by (rule accumulate_segment) simp_all
  have "foldl (\<lambda>s g. to_float (s + g)) 0 (replicate 15 (of_int 8589935 * 2 powi (- 33))) = of_int (8589935 + int 7 * 1073742) * 2 powi (- 30)"
    by (rule accumulate_extend [OF p8 q6]) simp
  then have p15: "foldl (\<lambda>s g. to_float (s + g)) 0 (replicate 15 (of_int 8589935 * 2 powi (- 33))) = of_int 16106129 * 2 powi (- 30)"
    by simp
  have q7: "foldl (\<lambda>s g. to_float (s + g)) (of_int 16106129 * 2 powi (- 30)) (replicate 1 (of_int 8589935 * 2 powi (- 33))) = of_int 8589935 * 2 powi (- 29)"
  proof (rule accumulate_step)
    have "fround 24 (- 126) (of_int 16106129 * 2 powi (- 30) + of_int 8589935 * 2 powi (- 33)) = of_int 8589935 * 2 powi (max (- 6) (- 126) - int 24 + 1)"
      by (rule fround_eval) simp_all
    then show "to_float (of_int 16106129 * 2 powi (- 30) + of_int 8589935 * 2 powi (- 33)) = of_int 8589935 * 2 powi (- 29)"
      by (simp add: to_float_def)
  qed
  have p16: "foldl (\<lambda>s g. to_float (s + g)) 0 (replicate 16 (of_int 8589935 * 2 powi (- 33))) = of_int 8589935 * 2 powi (- 29)"
    by (rule accumulate_extend [OF p15 q7]) simp
  have q8: "foldl (\<lambda>s g. to_float (s + g)) (of_int 8589935 * 2 powi (- 29)) (replicate 15 (of_int 8589935 * 2 powi (- 33))) = of_int (8589935 + int 15 * 536871) * 2 powi (- 29)"
    by (rule accumulate_segment) simp_all
  have "foldl (\<lambda>s g. to_float (s + g)) 0 (replicate 31 (of_int 8589935 * 2 powi (- 33))) = of_int (8589935 + int 15 * 536871) * 2 powi (- 29)"
    by (rule accumulate_extend [OF p16 q8]) simp
  then have p31: "foldl (\<lambda>s g. to_float (s + g)) 0 (replicate 31 (of_int 8589935 * 2 powi (- 33))) = of_int 16643000 * 2 powi (- 29)"
    by simp
  have q9: "foldl (\<lambda>s g. to_float (s + g)) (of_int 16643000 * 2 powi (- 29)) (replicate 1 (of_int 8589935 * 2 powi (- 33))) = of_int 8589935 * 2 powi (- 28)"
  proof (rule accumulate_step)
    have "fround 24 (- 126) (of_int 16643000 * 2 powi (- 29) + of_int 8589935 * 2 powi (- 33)) = of_int 8589935 * 2 powi (max (- 5) (- 126) - int 24 + 1)"
      by (rule fround_eval) simp_all
    then show "to_float (of_int 16643000 * 2 powi (- 29) + of_int 8589935 * 2 powi (- 33)) = of_int 8589935 * 2 powi (- 28)"
      by (simp add: to_float_def)
  qed
  have p32: "foldl (\<lambda>s g. to_float (s + g)) 0 (replicate 32 (of_int 8589935 * 2 powi (- 33))) = of_int 8589935 * 2 powi (- 28)"
    by (rule accumulate_extend [OF p31 q9]) simp
  have q10: "foldl (\<lambda>s g. to_float (s + g)) (of_int 8589935 * 2 powi (- 28)) (replicate 30 (of_int 8589935 * 2 powi (- 33))) = of_int (8589935 + int 30 * 268435) * 2 powi (- 28)"
    by (rule accumulate_segment) simp_all
  have "foldl (\<lambda>s g. to_float (s + g)) 0 (replicate 62 (of_int 8589935 * 2 powi (- 33))) = of_int (8589935 + int 30 * 268435) * 2 powi (- 28)"
    by (rule accumulate_extend [OF p32 q10]) simp
  then have p62: "foldl (\<lambda>s g. to_float (s + g)) 0 (replicate 62 (of_int 8589935 * 2 powi (- 33))) = of_int 16642985 * 2 powi (- 28)"
    by simp
  have q11: "foldl (\<lambda>s g. to_float (s + g)) (of_int 16642985 * 2 powi (- 28)) (replicate 1 (of_int 8589935 * 2 powi (- 33))) = of_int 8455710 * 2 powi (- 27)"
  proof (rule accumulate_step)
    have "fround 24 (- 126) (of_int 16642985 * 2 powi (- 28) + of_int 8589935 * 2 powi (- 33)) = of_int 8455710 * 2 powi (max (- 4) (- 126) - int 24 + 1)"
      by (rule fround_eval) simp_all
    then show "to_float (of_int 16642985 * 2 powi (- 28) + of_int 8589935 * 2 powi (- 33)) = of_int 8455710 * 2 powi (- 27)"
      by (simp add: to_float_def)
  qed
  have p63: "foldl (\<lambda>s g. to_float (s + g)) 0 (replicate 63 (of_int 8589935 * 2 powi (- 33))) = of_int 8455710 * 2 powi (- 27)"
    by (rule accumulate_extend [OF p62 q11]) simp
  have q12: "foldl (\<lambda>s g. to_float (s + g)) (of_int 8455710 * 2 powi (- 27)) (replicate 61 (of_int 8589935 * 2 powi (- 33))) = of_int (8455710 + int 61 * 134218) * 2 powi (- 27)"
    by (rule accumulate_segment) simp_all
  have "foldl (\<lambda>s g. to_float (s + g)) 0 (replicate 124 (of_int 8589935 * 2 powi (- 33))) = of_int (8455710 + int 61 * 134218) * 2 powi (- 27)"
    by (rule accumulate_extend [OF p63 q12]) simp
  then have p124: "foldl (\<lambda>s g. to_float (s + g)) 0 (replicate 124 (of_int 8589935 * 2 powi (- 33))) = of_int 16643008 * 2 powi (- 27)"
    by simp
  have q13: "foldl (\<lambda>s g. to_float (s + g)) (of_int 16643008 * 2 powi (- 27)) (replicate 1 (of_int 8589935 * 2 powi (- 33))) = of_int 8388613 * 2 powi (- 26)"
  proof (rule accumulate_step)
    have "fround 24 (- 126) (of_int 16643008 * 2 powi (- 27) + of_int 8589935 * 2 powi (- 33)) = of_int 8388613 * 2 powi (max (- 3) (- 126) - int 24 + 1)"
      by (rule fround_eval) simp_all
    then show "to_float (of_int 16643008 * 2 powi (- 27) + of_int 8589935 * 2 powi (- 33)) = of_int 8388613 * 2 powi (- 26)"
      by (simp add: to_float_def)
  qed
  have p125: "foldl (\<lambda>s g. to_float (s + g)) 0 (replicate 125 (of_int 8589935 * 2 powi (- 33))) = of_int 8388613 * 2 powi (- 26)"
    by (rule accumulate_extend [OF p124 q13]) simp
  have q14: "foldl (\<lambda>s g. to_float (s + g)) (of_int 8388613 * 2 powi (- 26)) (replicate 124 (of_int 8589935 * 2 powi (- 33))) = of_int (8388613 + int 124 * 67109) * 2 powi (- 26)"
    by (rule accumulate_segment) simp_all
  have "foldl (\<lambda>s g. to_float (s + g)) 0 (replicate 249 (of_int 8589935 * 2 powi (- 33))) = of_int (8388613 + int 124 * 67109) * 2 powi (- 26)"
    by (rule accumulate_extend [OF p125 q14]) simp
  then have p249: "foldl (\<lambda>s g. to_float (s + g)) 0 (replicate 249 (of_int 8589935 * 2 powi (- 33))) = of_int 16710129 * 2 powi (- 26)"
    by simp
  have q15: "foldl (\<lambda>s g. to_float (s + g)) (of_int 16710129 * 2 powi (- 26)) (replicate 1 (of_int 8589935 * 2 powi (- 33))) = of_int 8388619 * 2 powi (- 25)"
  proof (rule accumulate_step)
    have "fround 24 (- 126) (of_int 16710129 * 2 powi (- 26) + of_int 8589935 * 2 powi (- 33)) = of_int 8388619 * 2 powi (max (- 2) (- 126) - int 24 + 1)"
      by (rule fround_eval) simp_all
    then show "to_float (of_int 16710129 * 2 powi (- 26) + of_int 8589935 * 2 powi (- 33)) = of_int 8388619 * 2 powi (- 25)"
      by (simp add: to_float_def)
  qed
  have p250: "foldl (\<lambda>s g. to_float (s + g)) 0 (replicate 250 (of_int 8589935 * 2 powi (- 33))) = of_int 8388619 * 2 powi (- 25)"
    by (rule accumulate_extend [OF p249 q15]) simp
  have q16: "foldl (\<lambda>s g. to_float (s + g)) (of_int 8388619 * 2 powi (- 25)) (replicate 250 (of_int 8589935 * 2 powi (- 33))) = of_int (8388619 + int 250 * 33554) * 2 powi (- 25)"
    by (rule accumulate_segment) simp_all
  have "foldl (\<lambda>s g. to_float (s + g)) 0 (replicate 500 (of_int 8589935 * 2 powi (- 33))) = of_int (8388619 + int 250 * 33554) * 2 powi (- 25)"
    by (rule accumulate_extend [OF p250 q16]) simp
  then have p500: "foldl (\<lambda>s g. to_float (s + g)) 0 (replicate 500 (of_int 8589935 * 2 powi (- 33))) = of_int 16777119 * 2 powi (- 25)"
    by simp
  have q17: "foldl (\<lambda>s g. to_float (s + g)) (of_int 16777119 * 2 powi (- 25)) (replicate 1 (of_int 8589935 * 2 powi (- 33))) = of_int 8405337 * 2 powi (- 24)"
  proof (rule accumulate_step)
    have "fround 24 (- 126) (of_int 16777119 * 2 powi (- 25) + of_int 8589935 * 2 powi (- 33)) = of_int 8405337 * 2 powi (max (- 1) (- 126) - int 24 + 1)"
      by (rule fround_eval) simp_all
    then show "to_float (of_int 16777119 * 2 powi (- 25) + of_int 8589935 * 2 powi (- 33)) = of_int 8405337 * 2 powi (- 24)"
      by (simp add: to_float_def)
  qed
  have p501: "foldl (\<lambda>s g. to_float (s + g)) 0 (replicate 501 (of_int 8589935 * 2 powi (- 33))) = of_int 8405337 * 2 powi (- 24)"
    by (rule accumulate_extend [OF p500 q17]) simp
  have q18: "foldl (\<lambda>s g. to_float (s + g)) (of_int 8405337 * 2 powi (- 24)) (replicate 499 (of_int 8589935 * 2 powi (- 33))) = of_int (8405337 + int 499 * 16777) * 2 powi (- 24)"
    by (rule accumulate_segment) simp_all
  have "foldl (\<lambda>s g. to_float (s + g)) 0 (replicate 1000 (of_int 8589935 * 2 powi (- 33))) = of_int (8405337 + int 499 * 16777) * 2 powi (- 24)"
    by (rule accumulate_extend [OF p501 q18]) simp
  then have p1000: "foldl (\<lambda>s g. to_float (s + g)) 0 (replicate 1000 (of_int 8589935 * 2 powi (- 33))) = of_int 16777060 * 2 powi (- 24)"
    by simp
  have q19: "foldl (\<lambda>s g. to_float (s + g)) (of_int 16777060 * 2 powi (- 24)) (replicate 1 (of_int 8589935 * 2 powi (- 33))) = of_int 8396919 * 2 powi (- 23)"
  proof (rule accumulate_step)
    have "fround 24 (- 126) (of_int 16777060 * 2 powi (- 24) + of_int 8589935 * 2 powi (- 33)) = of_int 8396919 * 2 powi (max (0) (- 126) - int 24 + 1)"
      by (rule fround_eval) simp_all
    then show "to_float (of_int 16777060 * 2 powi (- 24) + of_int 8589935 * 2 powi (- 33)) = of_int 8396919 * 2 powi (- 23)"
      by (simp add: to_float_def)
  qed
  have p1001: "foldl (\<lambda>s g. to_float (s + g)) 0 (replicate 1001 (of_int 8589935 * 2 powi (- 33))) = of_int 8396919 * 2 powi (- 23)"
    by (rule accumulate_extend [OF p1000 q19]) simp
  have q20: "foldl (\<lambda>s g. to_float (s + g)) (of_int 8396919 * 2 powi (- 23)) (replicate 998 (of_int 8589935 * 2 powi (- 33))) = of_int (8396919 + int 998 * 8389) * 2 powi (- 23)"
    by (rule accumulate_segment) simp_all
  have "foldl (\<lambda>s g. to_float (s + g)) 0 (replicate 1999 (of_int 8589935 * 2 powi (- 33))) = of_int (8396919 + int 998 * 8389) * 2 powi (- 23)"
    by (rule accumulate_extend [OF p1001 q20]) simp
  then have p1999: "foldl (\<lambda>s g. to_float (s + g)) 0 (replicate 1999 (of_int 8589935 * 2 powi (- 33))) = of_int 16769141 * 2 powi (- 23)"
    by simp
  have q21: "foldl (\<lambda>s g. to_float (s + g)) (of_int 16769141 * 2 powi (- 23)) (replicate 1 (of_int 8589935 * 2 powi (- 33))) = of_int 8388765 * 2 powi (- 22)"
  proof (rule accumulate_step)
    have "fround 24 (- 126) (of_int 16769141 * 2 powi (- 23) + of_int 8589935 * 2 powi (- 33)) = of_int 8388765 * 2 powi (max (1) (- 126) - int 24 + 1)"
      by (rule fround_eval) simp_all
    then show "to_float (of_int 16769141 * 2 powi (- 23) + of_int 8589935 * 2 powi (- 33)) = of_int 8388765 * 2 powi (- 22)"
      by (simp add: to_float_def)
  qed
  have p2000: "foldl (\<lambda>s g. to_float (s + g)) 0 (replicate 2000 (of_int 8589935 * 2 powi (- 33))) = of_int 8388765 * 2 powi (- 22)"
    by (rule accumulate_extend [OF p1999 q21]) simp
  have q22: "foldl (\<lambda>s g. to_float (s + g)) (of_int 8388765 * 2 powi (- 22)) (replicate 2000 (of_int 8589935 * 2 powi (- 33))) = of_int (8388765 + int 2000 * 4194) * 2 powi (- 22)"
    by (rule accumulate_segment) simp_all
  have "foldl (\<lambda>s g. to_float (s + g)) 0 (replicate 4000 (of_int 8589935 * 2 powi (- 33))) = of_int (8388765 + int 2000 * 4194) * 2 powi (- 22)"
    by (rule accumulate_extend [OF p2000 q22]) simp
  then have p4000: "foldl (\<lambda>s g. to_float (s + g)) 0 (replicate 4000 (of_int 8589935 * 2 powi (- 33))) = of_int 16776765 * 2 powi (- 22)"
    by simp
  have q23: "foldl (\<lambda>s g. to_float (s + g)) (of_int 16776765 * 2 powi (- 22)) (replicate 1 (of_int 8589935 * 2 powi (- 33))) = of_int 8390480 * 2 powi (- 21)"
  proof (rule accumulate_step)
    have "fround 24 (- 126) (of_int 16776765 * 2 powi (- 22) + of_int 8589935 * 2 powi (- 33)) = of_int 8390480 * 2 powi (max (2) (- 126) - int 24 + 1)"
      by (rule fround_eval) simp_all
    then show "to_float (of_int 16776765 * 2 powi (- 22) + of_int 8589935 * 2 powi (- 33)) = of_int 8390480 * 2 powi (- 21)"
      by (simp add: to_float_def)
  qed
  have p4001: "foldl (\<lambda>s g. to_float (s + g)) 0 (replicate 4001 (of_int 8589935 * 2 powi (- 33))) = of_int 8390480 * 2 powi (- 21)"
    by (rule accumulate_extend [OF p4000 q23]) simp
  have q24: "foldl (\<lambda>s g. to_float (s + g)) (of_int 8390480 * 2 powi (- 21)) (replicate 3999 (of_int 8589935 * 2 powi (- 33))) = of_int (8390480 + int 3999 * 2097) * 2 powi (- 21)"
    by (rule accumulate_segment) simp_all
  have "foldl (\<lambda>s g. to_float (s + g)) 0 (replicate 8000 (of_int 8589935 * 2 powi (- 33))) = of_int (8390480 + int 3999 * 2097) * 2 powi (- 21)"
    by (rule accumulate_extend [OF p4001 q24]) simp
  then have p8000: "foldl (\<lambda>s g. to_float (s + g)) 0 (replicate 8000 (of_int 8589935 * 2 powi (- 33))) = of_int 16776383 * 2 powi (- 21)"
    by simp
  have q25: "foldl (\<lambda>s g. to_float (s + g)) (of_int 16776383 * 2 powi (- 21)) (replicate 1 (of_int 8589935 * 2 powi (- 33))) = of_int 8389240 * 2 powi (- 20)"
  proof (rule accumulate_step)
    have "fround 24 (- 126) (of_int 16776383 * 2 powi (- 21) + of_int 8589935 * 2 powi (- 33)) = of_int 8389240 * 2 powi (max (3) (- 126) - int 24 + 1)"
      by (rule fround_eval) simp_all
    then show "to_float (of_int 16776383 * 2 powi (- 21) + of_int 8589935 * 2 powi (- 33)) = of_int 8389240 * 2 powi (- 20)"
      by (simp add: to_float_def)
  qed
  have p8001: "foldl (\<lambda>s g. to_float (s + g)) 0 (replicate 8001 (of_int 8589935 * 2 powi (- 33))) = of_int 8389240 * 2 powi (- 20)"
    by (rule accumulate_extend [OF p8000 q25]) simp
  have q26: "foldl (\<lambda>s g. to_float (s + g)) (of_int 8389240 * 2 powi (- 20)) (replicate 3459 (of_int 8589935 * 2 powi (- 33))) = of_int (8389240 + int 3459 * 1049) * 2 powi (- 20)"
    by (rule accumulate_segment) simp_all
  have "foldl (\<lambda>s g. to_float (s + g)) 0 (replicate 11460 (of_int 8589935 * 2 powi (- 33))) = of_int (8389240 + int 3459 * 1049) * 2 powi (- 20)"
    by (rule accumulate_extend [OF p8001 q26]) simp
  then have p11460: "foldl (\<lambda>s g. to_float (s + g)) 0 (replicate 11460 (of_int 8589935 * 2 powi (- 33))) = of_int 12017731 * 2 powi (- 20)"
    by simp
  show ?thesis unfolding float_sum_def by (rule p11460)
qed

lemma to_float_1ms: "to_float (1 / 1000) = of_int 8589935 * 2 powi (- 33)"
proof -
  have "fround 24 (- 126) (1 / 1000) =
          of_int 8589935 * 2 powi (max (- 10) (- 126) - int 24 + 1)"
    by (rule fround_eval) simp_all
  then show ?thesis by (simp add: to_float_def)
qed

lemma elapsed_1ms: "elapsed 0 1000000 = of_int 8589935 * 2 powi (- 33)"
proof (rule elapsed_eval [where nl = 4611686018425781 and el = "- 62"
      and nu = 4611686018429688 and eu = "- 62"])
  show "0 \<le> (1000000::int) - 0" "(1000000::int) - 0 < 1000000000" by simp_all
  show "\<bar>4611686018425781::int\<bar> \<le> 2 ^ 53" "- 1074 \<le> (- 62 :: int)"
    "\<bar>4611686018429688::int\<bar> \<le> 2 ^ 53" "- 1074 \<le> (- 62 :: int)" by simp_all
  show "of_int 4611686018425781 * 2 powi (- 62)
      \<le> (1180591620717::real) * 2 powi (- 70) * of_int (1000000 - 0)"
    by simp
  show "(1180591620718::real) * 2 powi (- 70) * of_int (1000000 - 0)
      \<le> of_int 4611686018429688 * 2 powi (- 62)"
    by simp
  have "fround 24 (- 126) (of_int 4611686018425781 * 2 powi (- 62)) =
          of_int 8589935 * 2 powi (max (- 10) (- 126) - int 24 + 1)"
    by (rule fround_eval) simp_all
  then show "to_float (of_int 4611686018425781 * 2 powi (- 62)) = of_int 8589935 * 2 powi (- 33)"
    by (simp add: to_float_def)
  have "fround 24 (- 126) (of_int 4611686018429688 * 2 powi (- 62)) =
          of_int 8589935 * 2 powi (max (- 10) (- 126) - int 24 + 1)"
    by (rule fround_eval) simp_all
  then show "to_float (of_int 4611686018429688 * 2 powi (- 62)) = of_int 8589935 * 2 powi (- 33)"
    by (simp add: to_float_def)
qed

lemma min_time_1000:
  "tm_min_time (TopicMonitor float_members name topic_name 1000 use_average rate s0) =
     of_int 8589935 * 2 powi (- 33)"
proof -
  have "to_float (to_float (1 / 1000)) = to_float (1 / 1000)"
    by (rule to_float_idem)
  then have "to_float (to_float (1 / 1000)) = of_int 8589935 * 2 powi (- 33)"
    by (simp only: to_float_1ms)
  then show ?thesis by (simp add: TopicMonitor_def float_members_def)
qed

lemma average_long:
  "to_float (of_int 12017731 * 2 powi (- 20) / to_float (real 11461)) =
     of_int 8589936 * 2 powi (- 33)"
proof -
  have n: "to_float (real 11461) = 11461"
    using to_float_nat [of 11461] by simp
  have "fround 24 (- 126) (of_int 12017731 * 2 powi (- 20) / 11461) =
          of_int 8589936 * 2 powi (max (- 10) (- 126) - int 24 + 1)"
    by (rule fround_eval) simp_all
  then have "to_float (of_int 12017731 * 2 powi (- 20) / 11461) = of_int 8589936 * 2 powi (- 33)"
    by (simp add: to_float_def)
  then show ?thesis by (simp only: n)
qed

lemma regular_arrivals_exec:
  "monitor_exec (regular_arrivals period n) m =
     m\<lparr>tm_stamps := tm_stamps m @ map (\<lambda>i. int i * period) [0 ..< n]\<rparr>"
proof -
  have "regular_arrivals period n = map Arrival (map (\<lambda>i. int i * period) [0 ..< n])"
    by (simp add: regular_arrivals_def)
  then show ?thesis by (simp only: monitor_exec_arrivals)
qed

text \<open>
  C9, as the code has it: for a monitor of positive minimum frequency (any \<open>float\<close> is
  below \<open>2^128\<close>) and a log of at least two and at most 4096 stamps, if strict mode judges
  the monitor healthy then averaging mode judges it healthy too.
\<close>

theorem averaging_at_least_as_permissive:
  assumes "configured h m" and "0 < tm_min_freq m" and "tm_min_freq m \<le> 2 ^ 128"
    and "2 \<le> length (tm_stamps m)" and "length (tm_stamps m) \<le> 4096"
    and "tm_status (TopicMonitor_run (m\<lparr>tm_use_average := False\<rparr>))"
  shows "tm_status (TopicMonitor_run (m\<lparr>tm_use_average := True\<rparr>))"
proof -
  have b: "0 < tm_min_time m"
    using assms(1,2,3) by (rule min_time_positive)
  have "\<forall>g \<in> set (gaps (tm_stamps m)). g \<le> tm_min_time m"
    using run_check_strict [of "m\<lparr>tm_use_average := False\<rparr>"] assms(4,6)
    by (simp add: run_status)
  then have "to_float (float_sum (gaps (tm_stamps m)) / to_float (real (length (tm_stamps m))))
               \<le> tm_min_time m"
    using b assms(4,5) by (intro average_below_threshold)
  then show ?thesis
    using run_check_average [of "m\<lparr>tm_use_average := True\<rparr>"] assms(4)
    by (simp add: run_status)
qed

text \<open>
  Arrivals at 0.00, 0.05 and 0.11 s at 10 Hz are healthy in both modes.
\<close>

theorem averaging_at_least_as_permissive_witness:
  "configured float_members (monitor_exec [Arrival 0, Arrival 50000000, Arrival 110000000]
       (TopicMonitor float_members ''lidar'' ''/scan'' 10 False 10 True))
   \<and> 0 < tm_min_freq (monitor_exec [Arrival 0, Arrival 50000000, Arrival 110000000]
       (TopicMonitor float_members ''lidar'' ''/scan'' 10 False 10 True))
   \<and> tm_min_freq (monitor_exec [Arrival 0, Arrival 50000000, Arrival 110000000]
       (TopicMonitor float_members ''lidar'' ''/scan'' 10 False 10 True)) \<le> 2 ^ 128
   \<and> 2 \<le> length (tm_stamps (monitor_exec [Arrival 0, Arrival 50000000, Arrival 110000000]
       (TopicMonitor float_members ''lidar'' ''/scan'' 10 False 10 True)))
   \<and> length (tm_stamps (monitor_exec [Arrival 0, Arrival 50000000, Arrival 110000000]
       (TopicMonitor float_members ''lidar'' ''/scan'' 10 False 10 True))) \<le> 4096
   \<and> tm_status (TopicMonitor_run ((monitor_exec [Arrival 0, Arrival 50000000, Arrival 110000000]
       (TopicMonitor float_members ''lidar'' ''/scan'' 10 False 10 True))\<lparr>tm_use_average := False\<rparr>))
   \<and> tm_status (TopicMonitor_run ((monitor_exec [Arrival 0, Arrival 50000000, Arrival 110000000]
       (TopicMonitor float_members ''lidar'' ''/scan'' 10 False 10 True))\<lparr>tm_use_average := True\<rparr>))"
proof -
  let ?m0 = "TopicMonitor float_members ''lidar'' ''/scan'' 10 False 10 True"
  let ?H = "monitor_exec [Arrival 0, Arrival 50000000, Arrival 110000000] ?m0"
  have st: "tm_stamps ?H = [0, 50000000, 110000000]"
    by (simp add: monitor_exec_def topicCB_def TopicMonitor_def)
  have t: "tm_min_time ?H = tm_min_time ?m0"
    by (simp add: monitor_exec_def topicCB_def)
  have f: "tm_min_freq ?H = 10"
    by (simp add: monitor_exec_def topicCB_def TopicMonitor_def)
  have c: "configured float_members ?H"
    by (simp add: configured_monitor_exec configured_TopicMonitor)
  have p: "0 < tm_min_freq ?H" and q: "tm_min_freq ?H \<le> 2 ^ 128"
    by (simp_all only: f) simp_all
  have l: "2 \<le> length (tm_stamps ?H)" and u: "length (tm_stamps ?H) \<le> 4096"
    by (simp_all only: st) simp_all
  have mt: "1 / 16 \<le> tm_min_time ?H"
    unfolding t by (rule min_time_10)
  have "elapsed 0 50000000 \<le> tm_min_time ?H" "elapsed 50000000 110000000 \<le> tm_min_time ?H"
    using elapsed_50ms elapsed_60ms mt by linarith+
  then have "\<forall>g \<in> set (gaps (tm_stamps ?H)). g \<le> tm_min_time ?H"
    by (simp only: st gaps_three) simp
  then have s: "tm_status (TopicMonitor_run (?H\<lparr>tm_use_average := False\<rparr>))"
    using run_check_strict [of "?H\<lparr>tm_use_average := False\<rparr>"] l
    by (simp add: run_status)
  show ?thesis
    using c p q l u s averaging_at_least_as_permissive [OF c p q l u s] by blast
qed

text \<open>
  Without the bound on the length of the log the claim fails. A topic at 1000 Hz whose stamps
  are exactly 1 ms apart, 11461 of them in the log, with \<open>float\<close> members: every gap is the
  \<open>float\<close> nearest to 0.001, which is also the stored minimum interval, so strict mode judges
  the monitor healthy. The \<open>float\<close> sum of the 11460 gaps drifts upwards (from 8.192 s on
  each addition of 0.001 adds \<open>1049 / 2^20\<close>) and reaches \<open>12017731 / 2^20\<close>; divided by
  11461 it rounds to the next \<open>float\<close> above the minimum interval, so averaging mode judges
  the monitor unhealthy.
\<close>

theorem averaging_permissive_counterexample:
  "0 < tm_min_freq (monitor_exec (regular_arrivals 1000000 11461)
       (TopicMonitor float_members ''imu'' ''/imu/data'' 1000 False 10 False))
   \<and> 2 \<le> length (tm_stamps (monitor_exec (regular_arrivals 1000000 11461)
       (TopicMonitor float_members ''imu'' ''/imu/data'' 1000 False 10 False)))
   \<and> tm_status (TopicMonitor_run ((monitor_exec (regular_arrivals 1000000 11461)
       (TopicMonitor float_members ''imu'' ''/imu/data'' 1000 False 10 False))\<lparr>tm_use_average := False\<rparr>))
       = True
   \<and> tm_status (TopicMonitor_run ((monitor_exec (regular_arrivals 1000000 11461)
       (TopicMonitor float_members ''imu'' ''/imu/data'' 1000 False 10 False))\<lparr>tm_use_average := True\<rparr>))
       = False"
proof -
  let ?m0 = "TopicMonitor float_members ''imu'' ''/imu/data'' 1000 False 10 False"
  let ?L = "monitor_exec (regular_arrivals 1000000 11461) ?m0"
  have st: "tm_stamps ?L = map (\<lambda>i. int i * 1000000) [0 ..< 11461]"
    by (simp only: regular_arrivals_exec) (simp add: TopicMonitor_def)
  have len: "length (tm_stamps ?L) = 11461"
    by (simp only: st length_map length_upt)
  have l: "2 \<le> length (tm_stamps ?L)" unfolding len by simp
  have f: "0 < tm_min_freq ?L"
    by (simp only: regular_arrivals_exec) (simp add: TopicMonitor_def)
  have "tm_min_time ?L = tm_min_time ?m0"
    by (simp only: regular_arrivals_exec) simp
  then have t: "tm_min_time ?L = of_int 8589935 * 2 powi (- 33)"
    by (simp only: min_time_1000)
  have g: "gaps (tm_stamps ?L) = replicate 11460 (of_int 8589935 * 2 powi (- 33))"
    by (simp only: st gaps_regular elapsed_1ms) simp
  have "\<forall>g \<in> set (gaps (tm_stamps ?L)). g \<le> tm_min_time ?L"
    by (simp only: g t) simp
  then have strict: "tm_status (TopicMonitor_run (?L\<lparr>tm_use_average := False\<rparr>)) = True"
    using run_check_strict [of "?L\<lparr>tm_use_average := False\<rparr>"] l
    by (simp add: run_status)
  have avg: "to_float (float_sum (gaps (tm_stamps ?L)) / to_float (real (length (tm_stamps ?L))))
      = of_int 8589936 * 2 powi (- 33)"
    by (simp only: g len float_sum_long average_long)
  have "\<not> to_float (float_sum (gaps (tm_stamps ?L)) / to_float (real (length (tm_stamps ?L))))
            \<le> tm_min_time ?L"
    unfolding avg t by simp
  then have average: "tm_status (TopicMonitor_run (?L\<lparr>tm_use_average := True\<rparr>)) = False"
    using run_check_average [of "?L\<lparr>tm_use_average := True\<rparr>"] l
    by (simp add: run_status)
  show ?thesis using f l strict average by blast
qed

text \<open>
  Without the positive frequency the claim fails too. The code takes any \<open>float\<close> as minimum
  frequency: with \<open>-1\<close> the stored minimum interval is \<open>-1\<close>; for the log of the
  two stamps 2 s and 1 s the gap is \<open>-1\<close>, which strict mode accepts, and the average
  \<open>-0.5\<close> is above the minimum interval, so averaging mode judges the monitor unhealthy.
\<close>

lemma negative_frequency_not_permissive:
  "2 \<le> length (tm_stamps (monitor_exec [Arrival 2000000000, Arrival 1000000000]
       (TopicMonitor float_members ''gps'' ''/fix'' (- 1) False 10 False)))
   \<and> tm_status (TopicMonitor_run ((monitor_exec [Arrival 2000000000, Arrival 1000000000]
       (TopicMonitor float_members ''gps'' ''/fix'' (- 1) False 10 False))\<lparr>tm_use_average := False\<rparr>))
       = True
   \<and> tm_status (TopicMonitor_run ((monitor_exec [Arrival 2000000000, Arrival 1000000000]
       (TopicMonitor float_members ''gps'' ''/fix'' (- 1) False 10 False))\<lparr>tm_use_average := True\<rparr>))
       = False"
proof -
  let ?G = "monitor_exec [Arrival 2000000000, Arrival 1000000000]
       (TopicMonitor float_members ''gps'' ''/fix'' (- 1) False 10 False)"
  have st: "tm_stamps ?G = [2000000000, 1000000000]"
    by (simp add: monitor_exec_def topicCB_def TopicMonitor_def)
  have l: "2 \<le> length (tm_stamps ?G)" by (simp only: st) simp
  have s1: "store t (- 1) = - 1" for t
    using store_fix [of "- 1" 0 t] by simp
  have t: "tm_min_time ?G = - 1"
    by (simp add: monitor_exec_def topicCB_def TopicMonitor_def s1)
  have e: "elapsed 2000000000 1000000000 = - 1"
    using elapsed_seconds [of "- 1" 1000000000 2000000000] by simp
  have fs: "float_sum [- 1] = - 1"
    using to_float_fix [of "- 1" 0] by (simp add: float_sum_def)
  have n: "to_float (real (length [2000000000, 1000000000 :: int])) = 2"
    using to_float_nat [of 2] by simp
  have q: "to_float (- 1 / 2) = - 1 / 2"
    using to_float_fix [of "- 1" "- 1"] by simp
  have "\<forall>g \<in> set (gaps (tm_stamps ?G)). g \<le> tm_min_time ?G"
    by (simp only: st gaps_two t e) simp
  then have strict: "tm_status (TopicMonitor_run (?G\<lparr>tm_use_average := False\<rparr>)) = True"
    using run_check_strict [of "?G\<lparr>tm_use_average := False\<rparr>"] l
    by (simp add: run_status)
  have "\<not> to_float (float_sum (gaps (tm_stamps ?G)) / to_float (real (length (tm_stamps ?G))))
            \<le> tm_min_time ?G"
    by (simp only: st gaps_two t e fs n q)
  then have average: "tm_status (TopicMonitor_run (?G\<lparr>tm_use_average := True\<rparr>)) = False"
    using run_check_average [of "?G\<lparr>tm_use_average := True\<rparr>"] l
    by (simp add: run_status)
  show ?thesis using l strict average by blast
qed

text \<open>
  The converse does not hold: two stamps 0.25 s apart at 8 Hz pass averaging mode and
  fail strict mode.
\<close>

lemma strict_not_implied_by_average:
  "tm_status (TopicMonitor_run ((monitor_exec [Arrival 0, Arrival 250000000]
       (TopicMonitor h ''gps'' ''/fix'' 8 False 10 False))\<lparr>tm_use_average := True\<rparr>))
   \<and> \<not> tm_status (TopicMonitor_run ((monitor_exec [Arrival 0, Arrival 250000000]
       (TopicMonitor h ''gps'' ''/fix'' 8 False 10 False))\<lparr>tm_use_average := False\<rparr>))"
proof -
  let ?G = "monitor_exec [Arrival 0, Arrival 250000000] (TopicMonitor h ''gps'' ''/fix'' 8 False 10 False)"
  have st: "tm_stamps ?G = [0, 250000000]"
    by (simp add: monitor_exec_def topicCB_def TopicMonitor_def)
  have l: "2 \<le> length (tm_stamps ?G)" by (simp only: st) simp
  have t: "tm_min_time ?G = 1 / 8"
    using min_time_8 [of h "''gps''" "''/fix''" False 10 False]
    by (simp add: monitor_exec_def topicCB_def)
  have e: "elapsed 0 250000000 = 1 / 4"
    by (rule elapsed_quarter) simp_all
  have fs: "float_sum [1 / 4] = 1 / 4"
    using to_float_fix [of 1 "- 2"] by (simp add: float_sum_def)
  have n: "to_float (real (length [0, 250000000 :: int])) = 2"
    using to_float_nat [of 2] by simp
  have q: "to_float (1 / 4 / 2) = 1 / 8"
    using to_float_fix [of 1 "- 3"] by simp
  have "to_float (float_sum (gaps (tm_stamps ?G)) / to_float (real (length (tm_stamps ?G))))
            \<le> tm_min_time ?G"
    by (simp only: st gaps_two t e fs n q)
  then have average: "tm_status (TopicMonitor_run (?G\<lparr>tm_use_average := True\<rparr>))"
    using run_check_average [of "?G\<lparr>tm_use_average := True\<rparr>"] l
    by (simp add: run_status)
  have "\<not> list_all (\<lambda>g. g \<le> tm_min_time ?G) (gaps (tm_stamps ?G))"
    by (simp only: st gaps_two t e) simp
  then have strict: "\<not> tm_status (TopicMonitor_run (?G\<lparr>tm_use_average := False\<rparr>))"
    using run_check_strict_list [of "?G\<lparr>tm_use_average := False\<rparr>"] l
    by (simp add: run_status)
  show ?thesis using average strict by blast
qed

text \<open>
  C10, as the code has it: on a log of exactly two stamps, averaging mode judges the
  monitor healthy exactly when the gap as the code computes it (narrowed to \<open>float\<close>) is
  at most twice \<open>min_time_\<close>, the stored quotient \<open>1 / min_freq_\<close>: the one gap is
  divided by the two stamps, and halving a \<open>float\<close> gap is exact. So at 8 Hz two stamps
  0.25 s apart, a channel at half the minimum frequency, are judged healthy.
\<close>

theorem two_stamps_average_verdict:
  assumes "configured h m" and "tm_stamps m = [a, b]" and "tm_use_average m"
  shows "tm_status (TopicMonitor_run m) =
           (elapsed a b \<le> 2 * store (min_time_type h) (store (min_freq_type h) (1 / tm_min_freq m)))
       \<and> tm_status (TopicMonitor_run (monitor_exec [Arrival 0, Arrival 250000000]
            (TopicMonitor h' name topic_name 8 True rate s0))) = True"
proof -
  have mt: "tm_min_time m = store (min_time_type h) (store (min_freq_type h) (1 / tm_min_freq m))"
    using assms(1) by (simp add: configured_def)
  have avg: "tm_status (TopicMonitor_run m') = (elapsed x y \<le> 2 * tm_min_time m')"
    if "tm_stamps m' = [x, y]" "tm_use_average m'" for m' x y
  proof -
    have l: "2 \<le> length (tm_stamps m')" using that(1) by simp
    have fs: "float_sum [elapsed x y] = elapsed x y"
      by (simp add: float_sum_def) (simp add: elapsed_def to_float_idem)
    have n: "to_float (real (length [x, y])) = 2"
      using to_float_nat [of 2] by simp
    have "tm_status (TopicMonitor_run m') = (elapsed x y / 2 \<le> tm_min_time m')"
      using run_check_average [OF l that(2)]
      by (simp only: run_status that(1) gaps_two fs n elapsed_half)
    then show ?thesis by (simp add: field_simps)
  qed
  have general: "tm_status (TopicMonitor_run m) =
           (elapsed a b \<le> 2 * store (min_time_type h) (store (min_freq_type h) (1 / tm_min_freq m)))"
    using avg [OF assms(2,3)] by (simp only: mt)
  let ?G = "monitor_exec [Arrival 0, Arrival 250000000] (TopicMonitor h' name topic_name 8 True rate s0)"
  have st: "tm_stamps ?G = [0, 250000000]" and a: "tm_use_average ?G"
    by (simp_all add: monitor_exec_def topicCB_def TopicMonitor_def)
  have t: "tm_min_time ?G = 1 / 8"
    using min_time_8 [of h' name topic_name True rate s0]
    by (simp add: monitor_exec_def topicCB_def)
  have e: "elapsed 0 250000000 = 1 / 4"
    by (rule elapsed_quarter) simp_all
  have "tm_status (TopicMonitor_run ?G) = True"
    using avg [OF st a] by (simp only: t e) simp
  then show ?thesis using general by blast
qed

text \<open>
  At 8 Hz, the two stamps 1 s and 1.25 s (4 Hz) are judged healthy.
\<close>

theorem two_stamps_average_verdict_witness:
  "configured float_members (monitor_exec [Arrival 1000000000, Arrival 1250000000]
      (TopicMonitor float_members ''gps'' ''/fix'' 8 True 10 False))
   \<and> tm_stamps (monitor_exec [Arrival 1000000000, Arrival 1250000000]
        (TopicMonitor float_members ''gps'' ''/fix'' 8 True 10 False)) = [1000000000, 1250000000]
   \<and> tm_use_average (monitor_exec [Arrival 1000000000, Arrival 1250000000]
        (TopicMonitor float_members ''gps'' ''/fix'' 8 True 10 False))
   \<and> tm_status (TopicMonitor_run (monitor_exec [Arrival 1000000000, Arrival 1250000000]
        (TopicMonitor float_members ''gps'' ''/fix'' 8 True 10 False))) = True"
proof -
  let ?G = "monitor_exec [Arrival 1000000000, Arrival 1250000000]
      (TopicMonitor float_members ''gps'' ''/fix'' 8 True 10 False)"
  have st: "tm_stamps ?G = [1000000000, 1250000000]"
    by (simp add: monitor_exec_def topicCB_def TopicMonitor_def)
  have f: "tm_min_freq ?G = 8" and a: "tm_use_average ?G"
    by (simp_all add: monitor_exec_def topicCB_def TopicMonitor_def)
  have c: "configured float_members ?G"
    by (simp add: configured_monitor_exec configured_TopicMonitor)
  have e: "elapsed 1000000000 1250000000 = 1 / 4"
    by (rule elapsed_quarter) simp_all
  have v: "tm_status (TopicMonitor_run ?G) = True"
    using two_stamps_average_verdict [OF c st a] by (simp only: f e store_eighth) simp
  show ?thesis using c st a v by blast
qed

text \<open>
  The claim as the specification states it, with the exact gap and the exact bound
  \<open>2 / min_frequency\<close>, fails: at 8 Hz the bound is 0.25 s; two stamps 0.250000001 s
  apart have a gap above it, and averaging mode finds the monitor healthy, whichever
  type the members have, because the \<open>float\<close> nearest to that gap is 0.25.
\<close>

theorem two_stamps_exact_counterexample:
  "gap_seconds 0 250000001 > 2 / 8
   \<and> tm_status (TopicMonitor_run (monitor_exec [Arrival 0, Arrival 250000001]
        (TopicMonitor float_members ''gps'' ''/fix'' 8 True 10 False))) = True
   \<and> tm_status (TopicMonitor_run (monitor_exec [Arrival 0, Arrival 250000001]
        (TopicMonitor double_members ''gps'' ''/fix'' 8 True 10 False))) = True"
proof -
  have g: "gap_seconds 0 250000001 > 2 / 8"
    by (simp add: gap_seconds_def)
  have e: "elapsed 0 250000001 = 1 / 4"
    by (rule elapsed_quarter) simp_all
  have fs: "float_sum [1 / 4] = 1 / 4"
    using to_float_fix [of 1 "- 2"] by (simp add: float_sum_def)
  have n: "to_float (real (length [0, 250000001 :: int])) = 2"
    using to_float_nat [of 2] by simp
  have q: "to_float (1 / 4 / 2) = 1 / 8"
    using to_float_fix [of 1 "- 3"] by simp
  have v: "tm_status (TopicMonitor_run (monitor_exec [Arrival 0, Arrival 250000001]
        (TopicMonitor h ''gps'' ''/fix'' 8 True 10 False))) = True" for h
  proof -
    let ?m = "monitor_exec [Arrival 0, Arrival 250000001]
        (TopicMonitor h ''gps'' ''/fix'' 8 True 10 False)"
    have st: "tm_stamps ?m = [0, 250000001]" and a: "tm_use_average ?m"
      by (simp_all add: monitor_exec_def topicCB_def TopicMonitor_def)
    have t: "tm_min_time ?m = 1 / 8"
      using min_time_8 [of h "''gps''" "''/fix''" True 10 False]
      by (simp add: monitor_exec_def topicCB_def)
    have l: "2 \<le> length (tm_stamps ?m)" by (simp only: st) simp
    have "to_float (float_sum (gaps (tm_stamps ?m)) / to_float (real (length (tm_stamps ?m))))
            \<le> tm_min_time ?m"
      by (simp only: st gaps_two e fs n q t)
    then show ?thesis
      using run_check_average [OF l a] by (simp add: run_status)
  qed
  show ?thesis using g v [of float_members] v [of double_members] by blast
qed

section \<open>Properties of the watchdog\<close>

lemma collect_status_eq:
  "collect_status ts st arr =
     (st \<and> (\<forall>t \<in> set ts. getStatus t),
      arr @ map (\<lambda>t. \<lparr> ts_name = getName t, ts_status = getStatus t \<rparr>) ts)"
  by (induction ts arbitrary: st arr) (auto simp: Let_def)

text \<open>
  The loop returns \<open>false\<close> exactly when a topic from the current index on lacks a
  parameter; otherwise it runs into the end of the function.
\<close>

lemma topics_loop_outcome:
  "(case topics_loop h ps s0 i w of
      Returned b w' \<Rightarrow> b = False \<and>
        (\<exists>j. i \<le> j \<and> j < zw_nb_of_topics w \<and>
             \<not> topic_params_exist ps (''topic_'' @ to_string (j + 1)))
    | Undefined \<Rightarrow>
        \<not> (\<exists>j. i \<le> j \<and> j < zw_nb_of_topics w \<and>
               \<not> topic_params_exist ps (''topic_'' @ to_string (j + 1))))"
proof (induction h ps s0 i w rule: topics_loop.induct)
  case (1 h ps s0 i w)
  let ?bad = "\<lambda>j. \<not> topic_params_exist ps (''topic_'' @ to_string (j + 1))"
  show ?case
  proof (cases "i < zw_nb_of_topics w")
    case False
    then have "\<not> (\<exists>j. i \<le> j \<and> j < zw_nb_of_topics w \<and> ?bad j)" by auto
    then show ?thesis using False by (simp add: topics_loop.simps [of h ps s0 i w])
  next
    case True
    show ?thesis
    proof (cases "?bad i")
      case bad: True
      then have "\<exists>j. i \<le> j \<and> j < zw_nb_of_topics w \<and> ?bad j"
        using True by auto
      then show ?thesis using True bad by (simp add: topics_loop.simps [of h ps s0 i w])
    next
      case good: False
      let ?w = "w\<lparr>zw_topic_list := zw_topic_list w @
                  [make_topic h ps (s0 i) (''topic_'' @ to_string (i + 1))]\<rparr>"
      have ex: "(\<exists>j. i \<le> j \<and> j < zw_nb_of_topics w \<and> ?bad j) =
            (\<exists>j. i + 1 \<le> j \<and> j < zw_nb_of_topics ?w \<and> ?bad j)"
      proof
        assume "\<exists>j. i \<le> j \<and> j < zw_nb_of_topics w \<and> ?bad j"
        then obtain j where j: "i \<le> j" "j < zw_nb_of_topics w" "?bad j" by blast
        then have "j \<noteq> i" using good by auto
        then have "i + 1 \<le> j" using j(1) by simp
        then show "\<exists>j. i + 1 \<le> j \<and> j < zw_nb_of_topics ?w \<and> ?bad j" using j by auto
      next
        assume "\<exists>j. i + 1 \<le> j \<and> j < zw_nb_of_topics ?w \<and> ?bad j"
        then obtain j where j: "i + 1 \<le> j" "j < zw_nb_of_topics w" "?bad j" by auto
        then have "i \<le> j" by simp
        then show "\<exists>j. i \<le> j \<and> j < zw_nb_of_topics w \<and> ?bad j" using j by blast
      qed
      have step: "topics_loop h ps s0 i w = topics_loop h ps s0 (i + 1) ?w"
        using True good by (simp add: topics_loop.simps [of h ps s0 i w])
      show ?thesis
        unfolding step ex using "1.IH" [OF True refl] good by simp
    qed
  qed
qed

lemma topics_loop_none: "\<not> i < zw_nb_of_topics w \<Longrightarrow> topics_loop h ps s0 i w = Undefined"
  by (simp add: topics_loop.simps [of h ps s0 i w])

lemma createTopicMonitors_fails_iff:
  "(\<exists>w'. createTopicMonitors h ps s0 w = Returned False w') =
     (int_param ps ''nb_of_topics'' = None \<or> float_param ps ''rate'' = None \<or>
      (\<exists>j. 0 \<le> j \<and> j < the (int_param ps ''nb_of_topics'') \<and>
           \<not> topic_params_exist ps (''topic_'' @ to_string (j + 1))))"
proof (cases "int_param ps ''nb_of_topics''")
  case None
  then show ?thesis by (simp add: createTopicMonitors_def)
next
  case (Some n)
  show ?thesis
  proof (cases "float_param ps ''rate''")
    case None
    then show ?thesis using Some by (simp add: createTopicMonitors_def)
  next
    case (Some r)
    let ?w = "w\<lparr>zw_nb_of_topics := n, zw_rate := r,
                  rosout := rosout w @ [INFO (''Monitoring '' @ to_string n @ '' topics'')]\<rparr>"
    have c: "createTopicMonitors h ps s0 w = topics_loop h ps s0 0 ?w"
      using \<open>int_param ps ''nb_of_topics'' = Some n\<close> Some
      by (simp add: createTopicMonitors_def)
    show ?thesis
      using topics_loop_outcome [where h = h and ps = ps and ?s0.0 = s0 and i = 0 and w = ?w] \<open>int_param ps ''nb_of_topics'' = Some n\<close> Some
      unfolding c by (cases "topics_loop h ps s0 0 ?w") auto
  qed
qed

text \<open>
  No call of \<open>createTopicMonitors\<close> returns \<open>true\<close>: a call that does not return \<open>false\<close>
  has no defined behaviour.
\<close>

lemma createTopicMonitors_success_undefined:
  "createTopicMonitors h ps s0 w = Undefined \<or>
   (\<exists>w'. createTopicMonitors h ps s0 w = Returned False w')"
proof (cases "int_param ps ''nb_of_topics''")
  case None
  then show ?thesis by (simp add: createTopicMonitors_def)
next
  case (Some n)
  show ?thesis
  proof (cases "float_param ps ''rate''")
    case None
    then show ?thesis using Some by (simp add: createTopicMonitors_def)
  next
    case (Some r)
    let ?w = "w\<lparr>zw_nb_of_topics := n, zw_rate := r,
                  rosout := rosout w @ [INFO (''Monitoring '' @ to_string n @ '' topics'')]\<rparr>"
    have c: "createTopicMonitors h ps s0 w = topics_loop h ps s0 0 ?w"
      using \<open>int_param ps ''nb_of_topics'' = Some n\<close> Some
      by (simp add: createTopicMonitors_def)
    show ?thesis
      using topics_loop_outcome [where h = h and ps = ps and ?s0.0 = s0 and i = 0 and w = ?w]
      unfolding c by (cases "topics_loop h ps s0 0 ?w") auto
  qed
qed

lemma to_string_0: "to_string 0 = ''0''"
  by (simp add: to_string_def to_string_nat.simps [of 0])

lemma to_string_1: "to_string 1 = ''1''"
  by (simp add: to_string_def to_string_nat.simps [of "Suc 0"])

text \<open>
  C1: \<open>cmdVelCB\<close> publishes the command it received, unchanged, when the flag \<open>status_\<close>
  of the watchdog is true, and the all-zero \<open>Twist\<close> when it is false, whatever the
  command is.
\<close>

theorem cmdVelCB_gates_command:
  "(zw_status w \<longrightarrow> cmd_vel_out (cmdVelCB msg w) = cmd_vel_out w @ [msg])
   \<and> (\<not> zw_status w \<longrightarrow> cmd_vel_out (cmdVelCB msg w) = cmd_vel_out w @ [Twist_default])
   \<and> Twist_default = Twist (Vector3 0 0 0) (Vector3 0 0 0)"
  by (simp add: cmdVelCB_def Twist_default_def)

text \<open>
  The same command with the flag true and with the flag false.
\<close>

theorem cmdVelCB_gates_command_witness:
  "zw_status (blank_watchdog\<lparr>zw_status := True\<rparr>)
   \<and> cmd_vel_out (cmdVelCB (Twist (Vector3 1 0 0) (Vector3 0 0 0.5))
        (blank_watchdog\<lparr>zw_status := True\<rparr>)) = [Twist (Vector3 1 0 0) (Vector3 0 0 0.5)]
   \<and> \<not> zw_status blank_watchdog
   \<and> cmd_vel_out (cmdVelCB (Twist (Vector3 1 0 0) (Vector3 0 0 0.5)) blank_watchdog)
       = [Twist (Vector3 0 0 0) (Vector3 0 0 0)]"
  using cmdVelCB_gates_command [of "blank_watchdog\<lparr>zw_status := True\<rparr>"
          "Twist (Vector3 1 0 0) (Vector3 0 0 0.5)"]
        cmdVelCB_gates_command [of blank_watchdog "Twist (Vector3 1 0 0) (Vector3 0 0 0.5)"]
  by (simp add: blank_watchdog_def)

text \<open>
  C4: one pass of \<open>ZeusWatchdog::run\<close> sets and publishes the flag that is the conjunction
  of the verdicts of all monitors: true exactly when \<open>getStatus\<close> is true of every
  monitor, hence true for an empty monitor list; the report published with it has one
  entry, name and verdict, for every monitor, in the order of the list.
\<close>

theorem run_aggregates_verdicts:
  "zw_status (ZeusWatchdog_run now w) = (\<forall>t \<in> set (zw_topic_list w). getStatus t)
   \<and> status_out (ZeusWatchdog_run now w) =
       status_out w @ [\<forall>t \<in> set (zw_topic_list w). getStatus t]
   \<and> (zw_topic_list w = [] \<longrightarrow> zw_status (ZeusWatchdog_run now w) = True)
   \<and> info_out (ZeusWatchdog_run now w) =
       info_out w @ [\<lparr> header_stamp = now,
                       status_array = map (\<lambda>t. \<lparr> ts_name = getName t, ts_status = getStatus t \<rparr>)
                                          (zw_topic_list w) \<rparr>]"
  by (simp add: ZeusWatchdog_run_def collect_status_eq)

text \<open>
  Three healthy monitors and an unhealthy one give the flag false and a report of four
  entries; no monitor gives the flag true.
\<close>

theorem run_aggregates_verdicts_witness:
  "zw_status (ZeusWatchdog_run 5 (blank_watchdog\<lparr>zw_topic_list :=
       [TopicMonitor float_members ''lidar'' ''/scan'' 10 False 10 True,
        TopicMonitor float_members ''imu'' ''/imu/data'' 50 False 10 True,
        TopicMonitor float_members ''gps'' ''/fix'' 1 True 10 False,
        TopicMonitor float_members ''odom'' ''/odom'' 20 False 10 True]\<rparr>)) = False
   \<and> map ts_name (status_array (last (info_out (ZeusWatchdog_run 5 (blank_watchdog\<lparr>zw_topic_list :=
       [TopicMonitor float_members ''lidar'' ''/scan'' 10 False 10 True,
        TopicMonitor float_members ''imu'' ''/imu/data'' 50 False 10 True,
        TopicMonitor float_members ''gps'' ''/fix'' 1 True 10 False,
        TopicMonitor float_members ''odom'' ''/odom'' 20 False 10 True]\<rparr>)))))
       = [''lidar'', ''imu'', ''gps'', ''odom'']
   \<and> zw_status (ZeusWatchdog_run 5 blank_watchdog) = True"
  using run_aggregates_verdicts [of 5 "blank_watchdog\<lparr>zw_topic_list :=
       [TopicMonitor float_members ''lidar'' ''/scan'' 10 False 10 True,
        TopicMonitor float_members ''imu'' ''/imu/data'' 50 False 10 True,
        TopicMonitor float_members ''gps'' ''/fix'' 1 True 10 False,
        TopicMonitor float_members ''odom'' ''/odom'' 20 False 10 True]\<rparr>"]
      run_aggregates_verdicts [of 5 blank_watchdog]
  by (simp add: blank_watchdog_def TopicMonitor_def getStatus_def getName_def)

text \<open>
  C7: initialisation is to fail, and the process not to go on to monitoring, when a
  required parameter is missing. On a parameter server with no parameter at all
  \<open>createTopicMonitors\<close> logs the fatal error and returns \<open>false\<close>, but the constructor
  drops that value and \<open>main\<close> enters \<open>run\<close>: its first pass finds no monitor, publishes
  the flag \<open>true\<close>, and a command received then is forwarded as it is.
\<close>

theorem missing_nb_of_topics_still_monitors:
  "createTopicMonitors h no_params s0 w =
     Returned False (w\<lparr>rosout := rosout w @ [FATAL ''Missing nb_of_topics parameter'']\<rparr>)
   \<and> map_option rosout (ZeusWatchdog h no_params s0 w0)
       = Some [FATAL ''Missing nb_of_topics parameter'']
   \<and> map_option zw_topic_list (main_first_pass h no_params s0 w0 now) = Some []
   \<and> map_option status_out (main_first_pass h no_params s0 w0 now) = Some [True]
   \<and> map_option cmd_vel_out (map_option (cmdVelCB msg) (main_first_pass h no_params s0 w0 now))
       = Some [msg]"
  by (simp add: createTopicMonitors_def no_params_def ZeusWatchdog_def main_first_pass_def
        ZeusWatchdog_run_def cmdVelCB_def)

text \<open>
  The same happens when \<open>nb_of_topics\<close> and \<open>rate\<close> are set and the parameters of the
  one topic are missing.
\<close>

lemma missing_topic_still_monitors:
  "createTopicMonitors h missing_topic_params s0 blank_watchdog =
     Returned False (blank_watchdog\<lparr>zw_nb_of_topics := 1, zw_rate := 10,
        rosout := [INFO ''Monitoring 1 topics'',
                   FATAL ''One or more parameter for topic_1 is missing'']\<rparr>)
   \<and> map_option status_out (main_first_pass h missing_topic_params s0 blank_watchdog now)
       = Some [True]"
proof -
  have c: "createTopicMonitors h missing_topic_params s0 blank_watchdog =
     Returned False (blank_watchdog\<lparr>zw_nb_of_topics := 1, zw_rate := 10,
        rosout := [INFO ''Monitoring 1 topics'',
                   FATAL ''One or more parameter for topic_1 is missing'']\<rparr>)"
    by (simp add: createTopicMonitors_def missing_topic_params_def blank_watchdog_def
          to_string_1 topic_params_exist_def
          topics_loop.simps [of h _ s0 0])
  have b: "blank_watchdog\<lparr>zw_topic_list := [], cmd_vel_out := [], status_out := [],
              info_out := [], rosout := []\<rparr> = blank_watchdog"
    by (simp add: blank_watchdog_def)
  show ?thesis
    using c by (simp add: ZeusWatchdog_def main_first_pass_def b)
      (simp add: ZeusWatchdog_run_def blank_watchdog_def)
qed

text \<open>
  C8: initialisation is to fail when the configuration is empty. The code has no test
  for it. With \<open>nb_of_topics\<close> 0 and \<open>rate\<close> present neither test before the loop fails, the
  condition of the loop is false at once, and control reaches the closing brace of
  \<open>createTopicMonitors\<close>, where nothing is returned: the source gives this input no
  defined behaviour, and no path of it reports the empty configuration.
\<close>

theorem zero_topics_undefined:
  "createTopicMonitors h zero_topics_params s0 w = Undefined
   \<and> ZeusWatchdog h zero_topics_params s0 w0 = None
   \<and> main_first_pass h zero_topics_params s0 w0 now = None"
  by (simp add: createTopicMonitors_def zero_topics_params_def topics_loop_none
        ZeusWatchdog_def main_first_pass_def)

text \<open>
  A complete configuration of one topic ends in the same way, after the monitor has
  been built.
\<close>

lemma one_topic_undefined:
  "createTopicMonitors h one_topic_params s0 w = Undefined"
proof -
  have "\<not> (\<exists>w'. createTopicMonitors h one_topic_params s0 w = Returned False w')"
  proof -
    have "topic_params_exist one_topic_params (''topic_'' @ to_string (j + 1))"
      if "0 \<le> j" "j < 1" for j :: int
    proof -
      have "j = 0" using that by simp
      then show ?thesis
        by (simp add: to_string_1 topic_params_exist_def one_topic_params_def)
    qed
    then show ?thesis
      unfolding createTopicMonitors_fails_iff by (auto simp: one_topic_params_def)
  qed
  then show ?thesis
    using createTopicMonitors_success_undefined [of h one_topic_params s0 w] by blast
qed

end
